theory Spec2Isabelle
  imports Main "HOL-Library.Multiset" "HOL-Library.List_Lexorder" "HOL-Library.Word"
begin

section \<open>Data model\<close>

text \<open>
  The types of \<^verbatim>\<open>@/types/opencode\<close>, reduced to the fields the stores read, plus one
  payload field standing for the rest of each object. Timestamps are JavaScript numbers
  holding milliseconds since the epoch and are modelled as integers; the merge functions
  read a message's \<^verbatim>\<open>time.created\<close> through \<^verbatim>\<open>?? 0\<close>, so that field is optional here.
\<close>

record SessionInfo =
  s_id :: string
  s_title :: string
  s_updated :: int

record MessageInfo =
  m_id :: string
  m_sessionID :: string
  m_created :: "int option"
  m_role :: string

record MessagePart =
  p_id :: string
  p_messageID :: string
  p_sessionID :: string
  p_body :: string

record MessageWithParts =
  info :: MessageInfo
  parts :: "MessagePart list"

type_synonym MessageMap = "string \<rightharpoonup> MessageWithParts list"

text \<open>What a rejected promise carries: an \<^verbatim>\<open>Error\<close> instance with its message, a thrown
  string, or any other value together with its \<^verbatim>\<open>String(error)\<close> rendering.\<close>

datatype thrown = ErrorObject string | ThrownString string | ThrownOther string

datatype 'a apiResult = Failed thrown | Ok 'a

section \<open>Array helpers\<close>

text \<open>\<^verbatim>\<open>Array.prototype.findIndex\<close>: the first index whose element satisfies the predicate,
  \<open>-1\<close> when there is none.\<close>

fun findIndex :: "('a \<Rightarrow> bool) \<Rightarrow> 'a list \<Rightarrow> int" where
  "findIndex P [] = -1"
| "findIndex P (x # xs) =
     (if P x then 0 else (let i = findIndex P xs in if i < 0 then -1 else i + 1))"

text \<open>\<^verbatim>\<open>Array.prototype.find\<close>.\<close>

fun findFirst :: "('a \<Rightarrow> bool) \<Rightarrow> 'a list \<Rightarrow> 'a option" where
  "findFirst P [] = None"
| "findFirst P (x # xs) = (if P x then Some x else findFirst P xs)"

text \<open>\<^verbatim>\<open>xs[i]\<close> for an index that may be out of range (\<^verbatim>\<open>undefined\<close> there).\<close>

definition at_index :: "'a list \<Rightarrow> nat \<Rightarrow> 'a option" where
  "at_index xs i = (if i < length xs then Some (xs ! i) else None)"

text \<open>\<^verbatim>\<open>Array.prototype.sort\<close> is stable; with the comparator
  \<^verbatim>\<open>(a, b) => b.time.updated - a.time.updated\<close> it orders descending by update time, with
  \<^verbatim>\<open>(a, b) => (a.info.time.created ?? 0) - (b.info.time.created ?? 0)\<close> ascending by creation
  time. \<^const>\<open>sort_key\<close> is a stable insertion sort.\<close>

definition createdKey :: "MessageWithParts \<Rightarrow> int" where
  "createdKey a = (case m_created (info a) of None \<Rightarrow> 0 | Some t \<Rightarrow> t)"

definition sortByUpdatedDesc :: "SessionInfo list \<Rightarrow> SessionInfo list" where
  "sortByUpdatedDesc xs = sort_key (\<lambda>a. - s_updated a) xs"

definition sortByCreated :: "MessageWithParts list \<Rightarrow> MessageWithParts list" where
  "sortByCreated xs = sort_key createdKey xs"

text \<open>\<^verbatim>\<open>a.id.localeCompare(b.id)\<close> on part ids: the collation of the host locale is
  not part of the repository; the model orders ids lexicographically by character code,
  which is what the collation does on the server's ids (one case, digits and letters).
  No property below depends on this order.\<close>

definition idKey :: "MessagePart \<Rightarrow> nat list" where
  "idKey a = map of_char (p_id a)"

definition sortPartsById :: "MessagePart list \<Rightarrow> MessagePart list" where
  "sortPartsById xs = sort_key idKey xs"

section \<open>List merges of the zustand store (stores/opencode-store)\<close>

definition mergeSessions :: "SessionInfo list \<Rightarrow> SessionInfo \<Rightarrow> SessionInfo list" where
  "mergeSessions list next =
     (let index = findIndex (\<lambda>item. s_id item = s_id next) list in
      if index \<ge> 0 then sortByUpdatedDesc (list[nat index := next])
      else sortByUpdatedDesc (list @ [next]))"

definition removeSession :: "SessionInfo list \<Rightarrow> string \<Rightarrow> SessionInfo list" where
  "removeSession list i = filter (\<lambda>item. s_id item \<noteq> i) list"

definition mergeMessageList :: "MessageWithParts list \<Rightarrow> MessageWithParts \<Rightarrow> MessageWithParts list" where
  "mergeMessageList list next =
     (let index = findIndex (\<lambda>item. m_id (info item) = m_id (info next)) list in
      if index \<ge> 0 then sortByCreated (list[nat index := next])
      else sortByCreated (list @ [next]))"

definition mergeMessageInfoList :: "MessageWithParts list \<Rightarrow> MessageInfo \<Rightarrow> MessageWithParts list" where
  "mergeMessageInfoList list i =
     (let index = findIndex (\<lambda>item. m_id (info item) = m_id i) list in
      if index \<ge> 0 then list[nat index := \<lparr>info = i, parts = parts (list ! nat index)\<rparr>]
      else list)"

definition mergeMessagePartList :: "MessageWithParts list \<Rightarrow> MessagePart \<Rightarrow> MessageWithParts list" where
  "mergeMessagePartList list part =
     (let index = findIndex (\<lambda>item. m_id (info item) = p_messageID part) list in
      if index < 0 then list
      else
        (let target = list ! nat index;
             partIndex = findIndex (\<lambda>item. p_id item = p_id part) (parts target);
             nextParts = (if partIndex \<ge> 0 then (parts target)[nat partIndex := part]
                          else sortPartsById (parts target @ [part]))
         in list[nat index := \<lparr>info = info target, parts = nextParts\<rparr>]))"

definition removeMessagePartFromList ::
  "MessageWithParts list \<Rightarrow> string \<Rightarrow> string \<Rightarrow> MessageWithParts list" where
  "removeMessagePartFromList list messageID partID =
     (let index = findIndex (\<lambda>item. m_id (info item) = messageID) list in
      if index < 0 then list
      else
        (let target = list ! nat index;
             nextParts = filter (\<lambda>item. p_id item \<noteq> partID) (parts target)
         in list[nat index := \<lparr>info = info target, parts = nextParts\<rparr>]))"

definition removeMessageFromList :: "MessageWithParts list \<Rightarrow> string \<Rightarrow> MessageWithParts list" where
  "removeMessageFromList list messageID = filter (\<lambda>item. m_id (info item) \<noteq> messageID) list"

section \<open>The zustand store (stores/opencode-store)\<close>

record OpencodeConfig =
  baseUrl :: string
  directory :: "string option"

record OpencodeStoreState =
  config :: OpencodeConfig
  sessions :: "SessionInfo list"
  messages :: MessageMap
  activeSessionID :: "string option"
  activeSession :: "SessionInfo option"
  activeMessages :: "MessageWithParts list"
  isLoadingSessions :: bool
  isLoadingMessages :: bool
  busySessionIDs :: "string set"
  lastError :: "string option"

text \<open>JavaScript truthiness of an optional string: \<^verbatim>\<open>undefined\<close> and the empty string are
  falsy.\<close>

definition truthy :: "string option \<Rightarrow> bool" where
  "truthy x = (case x of None \<Rightarrow> False | Some s \<Rightarrow> s \<noteq> [])"

text \<open>\<^verbatim>\<open>messages[sessionID] ?? []\<close>.\<close>

definition orEmpty :: "MessageMap \<Rightarrow> string \<Rightarrow> MessageWithParts list" where
  "orEmpty m k = (case m k of None \<Rightarrow> [] | Some l \<Rightarrow> l)"

text \<open>\<^verbatim>\<open>nextActiveID ? messages[nextActiveID] ?? [] : []\<close>.\<close>

definition cachedFor :: "MessageMap \<Rightarrow> string option \<Rightarrow> MessageWithParts list" where
  "cachedFor m a = (case a of None \<Rightarrow> [] | Some k \<Rightarrow> if k = [] then [] else orEmpty m k)"

text \<open>\<^verbatim>\<open>sorted[0]?.id\<close>.\<close>

definition firstId :: "SessionInfo list \<Rightarrow> string option" where
  "firstId l = (case l of [] \<Rightarrow> None | x # _ \<Rightarrow> Some (s_id x))"

text \<open>The text of a prompt is a JavaScript string: a sequence of UTF-16 code units.
  \<^verbatim>\<open>String.prototype.trim\<close> removes white space and line terminators from both ends:
  tab, line feed, vertical tab, form feed, carriage return, space, no-break space
  (U+00A0), U+1680, U+2000 to U+200A, the line and paragraph separators U+2028 and U+2029,
  U+202F, U+205F, U+3000 and the byte order mark U+FEFF. Each is one code unit.\<close>

type_synonym jsText = "16 word list"

definition isWhiteSpace :: "16 word \<Rightarrow> bool" where
  "isWhiteSpace c =
     (c \<in> {0x0009, 0x000A, 0x000B, 0x000C, 0x000D, 0x0020, 0x00A0, 0x1680, 0x2028, 0x2029,
            0x202F, 0x205F, 0x3000, 0xFEFF}
      \<or> (0x2000 \<le> c \<and> c \<le> 0x200A))"

definition trim :: "jsText \<Rightarrow> jsText" where
  "trim t = rev (dropWhile isWhiteSpace (rev (dropWhile isWhiteSpace t)))"

text \<open>\<^verbatim>\<open>error instanceof Error ? error.message : String(error)\<close>.\<close>

fun errorText :: "thrown \<Rightarrow> string" where
  "errorText (ErrorObject m) = m"
| "errorText (ThrownString t) = t"
| "errorText (ThrownOther r) = r"

text \<open>\<^verbatim>\<open>error instanceof Error ? error.message : typeof error === "string" ? error :
  "Failed to send prompt"\<close>.\<close>

fun promptErrorText :: "thrown \<Rightarrow> string" where
  "promptErrorText (ErrorObject m) = m"
| "promptErrorText (ThrownString t) = t"
| "promptErrorText (ThrownOther r) = ''Failed to send prompt''"

definition initialState :: "OpencodeConfig \<Rightarrow> OpencodeStoreState" where
  "initialState c =
     \<lparr>config = c, sessions = [], messages = Map.empty, activeSessionID = None,
      activeSession = None, activeMessages = [], isLoadingSessions = False,
      isLoadingMessages = False, busySessionIDs = {}, lastError = None\<rparr>"

definition selectSession :: "OpencodeStoreState \<Rightarrow> string \<Rightarrow> OpencodeStoreState" where
  "selectSession state sessionID =
     state\<lparr>activeSessionID := Some sessionID,
            activeSession := findFirst (\<lambda>item. s_id item = sessionID) (sessions state),
            activeMessages := orEmpty (messages state) sessionID\<rparr>"

text \<open>The asynchronous actions take the outcome of their request as an argument and
  return \<open>Inl\<close> when the returned promise rejects, \<open>Inr\<close> with the new state when it
  resolves.\<close>

definition refreshSessions ::
  "OpencodeStoreState \<Rightarrow> SessionInfo list apiResult \<Rightarrow> thrown + OpencodeStoreState" where
  "refreshSessions state0 result =
     (let state = state0\<lparr>isLoadingSessions := True\<rparr> in
      case result of
        Ok fetched \<Rightarrow>
          (let sorted = sortByUpdatedDesc fetched;
               nextActiveID =
                 (if truthy (activeSessionID state)
                     \<and> list_ex (\<lambda>item. Some (s_id item) = activeSessionID state) sorted
                  then activeSessionID state else firstId sorted)
           in Inr (state\<lparr>sessions := sorted,
                     activeSessionID := nextActiveID,
                     activeSession :=
                       (if truthy nextActiveID
                        then findFirst (\<lambda>item. Some (s_id item) = nextActiveID) sorted else None),
                     activeMessages := cachedFor (messages state) nextActiveID,
                     isLoadingSessions := False\<rparr>))
      | Failed e \<Rightarrow> Inr (state\<lparr>isLoadingSessions := False, lastError := Some (errorText e)\<rparr>))"

definition loadMessages ::
  "OpencodeStoreState \<Rightarrow> string \<Rightarrow> MessageWithParts list apiResult
     \<Rightarrow> thrown + OpencodeStoreState" where
  "loadMessages state0 sessionID result =
     (let state = state0\<lparr>isLoadingMessages := True\<rparr> in
      case result of
        Ok fetched \<Rightarrow>
          Inr (state\<lparr>messages := (messages state)(sessionID \<mapsto> fetched),
                    activeMessages :=
                      (if activeSessionID state = Some sessionID then fetched
                       else activeMessages state),
                    isLoadingMessages := False\<rparr>)
      | Failed e \<Rightarrow> Inr (state\<lparr>isLoadingMessages := False, lastError := Some (errorText e)\<rparr>))"

definition createSession ::
  "OpencodeStoreState \<Rightarrow> SessionInfo apiResult \<Rightarrow> thrown + OpencodeStoreState" where
  "createSession state result =
     (case result of
        Failed e \<Rightarrow> Inl e
      | Ok session \<Rightarrow>
          Inr (state\<lparr>sessions := mergeSessions (sessions state) session,
                    activeSessionID := Some (s_id session),
                    activeSession := Some session,
                    activeMessages := orEmpty (messages state) (s_id session)\<rparr>))"

definition removeSessionState :: "OpencodeStoreState \<Rightarrow> string \<Rightarrow> OpencodeStoreState" where
  "removeSessionState state sessionID =
     (let sessions' = removeSession (sessions state) sessionID;
          messages' = (messages state)(sessionID := None);
          nextActiveID =
            (if activeSessionID state = Some sessionID then firstId sessions'
             else activeSessionID state)
      in state\<lparr>sessions := sessions',
               messages := messages',
               activeSessionID := nextActiveID,
               activeSession :=
                 (if truthy nextActiveID
                  then findFirst (\<lambda>item. Some (s_id item) = nextActiveID) sessions' else None),
               activeMessages := cachedFor messages' nextActiveID,
               busySessionIDs := busySessionIDs state - {sessionID}\<rparr>)"

definition deleteSession ::
  "OpencodeStoreState \<Rightarrow> string \<Rightarrow> unit apiResult \<Rightarrow> thrown + OpencodeStoreState" where
  "deleteSession state sessionID result =
     (case result of
        Failed e \<Rightarrow> Inl e
      | Ok _ \<Rightarrow> Inr (removeSessionState state sessionID))"

definition setBusy :: "OpencodeStoreState \<Rightarrow> string \<Rightarrow> bool \<Rightarrow> OpencodeStoreState" where
  "setBusy state sessionID busy =
     (if sessionID = [] then state
      else state\<lparr>busySessionIDs :=
        (if busy then insert sessionID (busySessionIDs state)
         else busySessionIDs state - {sessionID})\<rparr>)"

definition mergeMessage :: "OpencodeStoreState \<Rightarrow> MessageWithParts \<Rightarrow> OpencodeStoreState" where
  "mergeMessage state message =
     (let sessionID = m_sessionID (info message);
          merged = mergeMessageList (orEmpty (messages state) sessionID) message
      in state\<lparr>messages := (messages state)(sessionID \<mapsto> merged),
               activeMessages :=
                 (if activeSessionID state = Some sessionID then merged
                  else activeMessages state)\<rparr>)"

text \<open>\<^verbatim>\<open>prompt\<close>: the request is sent with the trimmed text; \<open>send\<close> is the outcome of
  \<^verbatim>\<open>apiSendPrompt\<close> for a session and a text.\<close>

definition prompt ::
  "OpencodeStoreState \<Rightarrow> string \<Rightarrow> jsText \<Rightarrow> (string \<Rightarrow> jsText \<Rightarrow> MessageWithParts apiResult)
     \<Rightarrow> thrown + OpencodeStoreState" where
  "prompt state0 sessionID input_text send =
     (let text = trim input_text in
      if text = [] then Inr state0
      else
        (let state = setBusy state0 sessionID True;
             state' =
               (case send sessionID text of
                  Ok response \<Rightarrow>
                    (let merged = mergeMessageList (orEmpty (messages state) sessionID) response
                     in state\<lparr>messages := (messages state)(sessionID \<mapsto> merged),
                              activeMessages :=
                                (if activeSessionID state = Some sessionID then merged
                                 else activeMessages state)\<rparr>)
                | Failed e \<Rightarrow> state\<lparr>lastError := Some (promptErrorText e)\<rparr>)
         in Inr (setBusy state' sessionID False)))"

definition mergeSession :: "OpencodeStoreState \<Rightarrow> SessionInfo \<Rightarrow> OpencodeStoreState" where
  "mergeSession state session =
     state\<lparr>sessions := mergeSessions (sessions state) session,
            activeSession :=
              (if activeSessionID state = Some (s_id session) then Some session
               else activeSession state)\<rparr>"

definition updateMessageInfo :: "OpencodeStoreState \<Rightarrow> MessageInfo \<Rightarrow> OpencodeStoreState" where
  "updateMessageInfo state i =
     (let sessionID = m_sessionID i in
      case messages state sessionID of
        None \<Rightarrow> state
      | Some existing \<Rightarrow>
          (let updated = mergeMessageInfoList existing i
           in state\<lparr>messages := (messages state)(sessionID \<mapsto> updated),
                    activeMessages :=
                      (if activeSessionID state = Some sessionID then updated
                       else activeMessages state)\<rparr>))"

definition updateMessagePart :: "OpencodeStoreState \<Rightarrow> MessagePart \<Rightarrow> OpencodeStoreState" where
  "updateMessagePart state part =
     (let sessionID = p_sessionID part in
      case messages state sessionID of
        None \<Rightarrow> state
      | Some existing \<Rightarrow>
          (let updated = mergeMessagePartList existing part
           in state\<lparr>messages := (messages state)(sessionID \<mapsto> updated),
                    activeMessages :=
                      (if activeSessionID state = Some sessionID then updated
                       else activeMessages state)\<rparr>))"

definition removeMessagePart ::
  "OpencodeStoreState \<Rightarrow> string \<Rightarrow> string \<Rightarrow> string \<Rightarrow> OpencodeStoreState" where
  "removeMessagePart state sessionID messageID partID =
     (case messages state sessionID of
        None \<Rightarrow> state
      | Some existing \<Rightarrow>
          (let updated = removeMessagePartFromList existing messageID partID
           in state\<lparr>messages := (messages state)(sessionID \<mapsto> updated),
                    activeMessages :=
                      (if activeSessionID state = Some sessionID then updated
                       else activeMessages state)\<rparr>))"

definition removeMessage :: "OpencodeStoreState \<Rightarrow> string \<Rightarrow> string \<Rightarrow> OpencodeStoreState" where
  "removeMessage state sessionID messageID =
     (case messages state sessionID of
        None \<Rightarrow> state
      | Some existing \<Rightarrow>
          (let updated = removeMessageFromList existing messageID
           in state\<lparr>messages := (messages state)(sessionID \<mapsto> updated),
                    activeMessages :=
                      (if activeSessionID state = Some sessionID then updated
                       else activeMessages state)\<rparr>))"

definition setLastError :: "OpencodeStoreState \<Rightarrow> string option \<Rightarrow> OpencodeStoreState" where
  "setLastError state message = state\<lparr>lastError := message\<rparr>"

definition clearError :: "OpencodeStoreState \<Rightarrow> OpencodeStoreState" where
  "clearError state = state\<lparr>lastError := None\<rparr>"

definition updateConfig :: "OpencodeStoreState \<Rightarrow> OpencodeConfig \<Rightarrow> OpencodeStoreState" where
  "updateConfig state nextConfig = state\<lparr>config := nextConfig\<rparr>"

subsection \<open>Server events and the subscription callback\<close>

text \<open>The raw message of a \<^verbatim>\<open>session.error\<close> event is a string or some other value,
  kept with its \<^verbatim>\<open>JSON.stringify\<close> rendering.\<close>

datatype rawMessage = RawString string | RawOther string

record SessionErrorPayload =
  e_dataMessage :: "rawMessage option"
  e_message :: "rawMessage option"

datatype ServerEvent =
    ServerConnected
  | SessionUpdated SessionInfo
  | SessionDeleted SessionInfo
  | SessionIdle string
  | SessionError "string option" SessionErrorPayload
  | MessageCreated MessageInfo "MessagePart list"
  | MessageUpdated MessageInfo
  | MessageRemoved string string
  | MessagePartUpdated MessagePart
  | MessagePartRemoved string string string
  | OtherEvent string

text \<open>\<^verbatim>\<open>error?.data?.message ?? error?.message\<close>, then the rendering to a string.\<close>

definition sessionErrorText :: "SessionErrorPayload \<Rightarrow> string" where
  "sessionErrorText e =
     (case (case e_dataMessage e of Some r \<Rightarrow> Some r | None \<Rightarrow> e_message e) of
        Some (RawString t) \<Rightarrow> t
      | Some (RawOther r) \<Rightarrow> r
      | None \<Rightarrow> ''Session error'')"

text \<open>The callback given to \<^verbatim>\<open>subscribeEvents\<close> by \<^verbatim>\<open>OpencodeProvider\<close>; \<open>fetched\<close> is
  the outcome of the session request that \<^verbatim>\<open>server.connected\<close> starts.\<close>

definition outcomeState :: "OpencodeStoreState \<Rightarrow> thrown + OpencodeStoreState \<Rightarrow> OpencodeStoreState" where
  "outcomeState state r = (case r of Inl _ \<Rightarrow> state | Inr state' \<Rightarrow> state')"

fun onServerEvent ::
  "OpencodeStoreState \<Rightarrow> SessionInfo list apiResult \<Rightarrow> ServerEvent \<Rightarrow> OpencodeStoreState" where
  "onServerEvent store fetched ServerConnected = outcomeState store (refreshSessions store fetched)"
| "onServerEvent store fetched (SessionUpdated i) = mergeSession store i"
| "onServerEvent store fetched (SessionDeleted i) = removeSessionState store (s_id i)"
| "onServerEvent store fetched (SessionIdle sessionID) = setBusy store sessionID False"
| "onServerEvent store fetched (SessionError sessionID e) =
     setLastError
       (case sessionID of
          None \<Rightarrow> store
        | Some k \<Rightarrow> if k = [] then store else setBusy store k False)
       (Some (sessionErrorText e))"
| "onServerEvent store fetched (MessageCreated i ps) = mergeMessage store \<lparr>info = i, parts = ps\<rparr>"
| "onServerEvent store fetched (MessageUpdated i) = updateMessageInfo store i"
| "onServerEvent store fetched (MessageRemoved sessionID messageID) =
     removeMessage store sessionID messageID"
| "onServerEvent store fetched (MessagePartUpdated part) = updateMessagePart store part"
| "onServerEvent store fetched (MessagePartRemoved sessionID messageID partID) =
     removeMessagePart store sessionID messageID partID"
| "onServerEvent store fetched (OtherEvent t) = store"

text \<open>One completed store operation, with the outcome of the request it made.\<close>

datatype action =
    SelectSession string
  | RefreshSessions "SessionInfo list apiResult"
  | LoadMessages string "MessageWithParts list apiResult"
  | CreateSession "SessionInfo apiResult"
  | DeleteSession string "unit apiResult"
  | Prompt string jsText "MessageWithParts apiResult"
  | Event ServerEvent "SessionInfo list apiResult"

fun perform :: "OpencodeStoreState \<Rightarrow> action \<Rightarrow> OpencodeStoreState" where
  "perform state (SelectSession sessionID) = selectSession state sessionID"
| "perform state (RefreshSessions r) = outcomeState state (refreshSessions state r)"
| "perform state (LoadMessages sessionID r) = outcomeState state (loadMessages state sessionID r)"
| "perform state (CreateSession r) = outcomeState state (createSession state r)"
| "perform state (DeleteSession sessionID r) = outcomeState state (deleteSession state sessionID r)"
| "perform state (Prompt sessionID t r) =
     outcomeState state (prompt state sessionID t (\<lambda>_ _. r))"
| "perform state (Event e fetched) = onServerEvent state fetched e"

section \<open>The React context store (state/opencode-store.tsx)\<close>

text \<open>The second store of the repository keeps the same collections in React state. Its
  list functions repeat those of the zustand store under other names; names that both
  files use carry the suffix \<open>_ctx\<close> here. \<^verbatim>\<open>removeSession\<close> is the same function in both.\<close>

definition mergeOrInsert :: "SessionInfo list \<Rightarrow> SessionInfo \<Rightarrow> SessionInfo list" where
  "mergeOrInsert list next =
     (let index = findIndex (\<lambda>item. s_id item = s_id next) list in
      if index \<ge> 0 then sortByUpdatedDesc (list[nat index := next])
      else sortByUpdatedDesc (list @ [next]))"

definition mergeMessage_ctx :: "MessageWithParts list \<Rightarrow> MessageWithParts \<Rightarrow> MessageWithParts list" where
  "mergeMessage_ctx list next =
     (let index = findIndex (\<lambda>item. m_id (info item) = m_id (info next)) list in
      if index \<ge> 0 then sortByCreated (list[nat index := \<lparr>info = info next, parts = parts next\<rparr>])
      else sortByCreated (list @ [next]))"

definition mergeMessageInfo :: "MessageWithParts list \<Rightarrow> MessageInfo \<Rightarrow> MessageWithParts list" where
  "mergeMessageInfo list i =
     (let index = findIndex (\<lambda>item. m_id (info item) = m_id i) list in
      if index \<ge> 0 then list[nat index := \<lparr>info = i, parts = parts (list ! nat index)\<rparr>]
      else list)"

definition mergeMessagePart :: "MessageWithParts list \<Rightarrow> MessagePart \<Rightarrow> MessageWithParts list" where
  "mergeMessagePart list part =
     (let index = findIndex (\<lambda>item. m_id (info item) = p_messageID part) list in
      if index < 0 then list
      else
        (let target = list ! nat index;
             partIndex = findIndex (\<lambda>item. p_id item = p_id part) (parts target);
             nextParts = (if partIndex \<ge> 0 then (parts target)[nat partIndex := part]
                          else sortPartsById (parts target @ [part]))
         in list[nat index := \<lparr>info = info target, parts = nextParts\<rparr>]))"

definition removeMessagePart_ctx ::
  "MessageWithParts list \<Rightarrow> string \<Rightarrow> string \<Rightarrow> MessageWithParts list" where
  "removeMessagePart_ctx list messageID partID =
     (let index = findIndex (\<lambda>item. m_id (info item) = messageID) list in
      if index < 0 then list
      else
        (let target = list ! nat index;
             nextParts = filter (\<lambda>item. p_id item \<noteq> partID) (parts target)
         in list[nat index := \<lparr>info = info target, parts = nextParts\<rparr>]))"

definition removeMessage_ctx :: "MessageWithParts list \<Rightarrow> string \<Rightarrow> MessageWithParts list" where
  "removeMessage_ctx list messageID = filter (\<lambda>item. m_id (info item) \<noteq> messageID) list"

record ProviderState =
  c_sessions :: "SessionInfo list"
  c_activeSessionID :: "string option"
  c_messages :: MessageMap
  c_isLoadingSessions :: bool
  c_isLoadingMessages :: bool
  c_busySessionIDs :: "string set"

definition initialProviderState :: ProviderState where
  "initialProviderState =
     \<lparr>c_sessions = [], c_activeSessionID = None, c_messages = Map.empty,
      c_isLoadingSessions = False, c_isLoadingMessages = False, c_busySessionIDs = {}\<rparr>"

text \<open>The \<^verbatim>\<open>activeMessages\<close> memo.\<close>

definition activeMessages_ctx :: "ProviderState \<Rightarrow> MessageWithParts list" where
  "activeMessages_ctx st =
     (if truthy (c_activeSessionID st)
      then (case c_activeSessionID st of None \<Rightarrow> [] | Some k \<Rightarrow> orEmpty (c_messages st) k)
      else [])"

text \<open>\<^verbatim>\<open>refreshSessions\<close>: a failed request is written to the console only.\<close>

definition refreshSessions_ctx ::
  "ProviderState \<Rightarrow> SessionInfo list apiResult \<Rightarrow> thrown + ProviderState" where
  "refreshSessions_ctx st0 result =
     (let st = st0\<lparr>c_isLoadingSessions := True\<rparr>;
          st' =
            (case result of
               Ok fetched \<Rightarrow>
                 (let sorted = sortByUpdatedDesc fetched;
                      st1 = st\<lparr>c_sessions := sorted\<rparr>
                  in if \<not> truthy (c_activeSessionID st0) \<and> length sorted > 0
                     then st1\<lparr>c_activeSessionID := firstId sorted\<rparr> else st1)
             | Failed e \<Rightarrow> st)
      in Inr (st'\<lparr>c_isLoadingSessions := False\<rparr>))"

text \<open>\<^verbatim>\<open>handleEvent\<close>: a chain of \<^verbatim>\<open>if (event.type === ...)\<close> tests; an event type that
  no test names falls through and changes nothing.\<close>

fun handleEvent ::
  "ProviderState \<Rightarrow> SessionInfo list apiResult \<Rightarrow> ServerEvent \<Rightarrow> ProviderState" where
  "handleEvent st fetched ServerConnected =
     (case refreshSessions_ctx st fetched of Inl _ \<Rightarrow> st | Inr st' \<Rightarrow> st')"
| "handleEvent st fetched (SessionUpdated i) =
     st\<lparr>c_sessions := mergeOrInsert (c_sessions st) i\<rparr>"
| "handleEvent st fetched (SessionDeleted i) =
     st\<lparr>c_sessions := removeSession (c_sessions st) (s_id i),
        c_messages := (c_messages st)(s_id i := None),
        c_activeSessionID :=
          (if c_activeSessionID st = Some (s_id i)
           then firstId (filter (\<lambda>session. s_id session \<noteq> s_id i) (c_sessions st))
           else c_activeSessionID st)\<rparr>"
| "handleEvent st fetched (SessionIdle sessionID) =
     st\<lparr>c_busySessionIDs := c_busySessionIDs st - {sessionID}\<rparr>"
| "handleEvent st fetched (SessionError sessionID e) =
     (case sessionID of
        None \<Rightarrow> st
      | Some k \<Rightarrow> if k = [] then st else st\<lparr>c_busySessionIDs := c_busySessionIDs st - {k}\<rparr>)"
| "handleEvent st fetched (MessageUpdated i) =
     st\<lparr>c_messages := (c_messages st)
          (m_sessionID i \<mapsto> mergeMessageInfo (orEmpty (c_messages st) (m_sessionID i)) i)\<rparr>"
| "handleEvent st fetched (MessageRemoved sessionID messageID) =
     st\<lparr>c_messages := (c_messages st)
          (sessionID \<mapsto> removeMessage_ctx (orEmpty (c_messages st) sessionID) messageID)\<rparr>"
| "handleEvent st fetched (MessagePartUpdated part) =
     st\<lparr>c_messages := (c_messages st)
          (p_sessionID part \<mapsto> mergeMessagePart (orEmpty (c_messages st) (p_sessionID part)) part)\<rparr>"
| "handleEvent st fetched (MessagePartRemoved sessionID messageID partID) =
     st\<lparr>c_messages := (c_messages st)
          (sessionID \<mapsto> removeMessagePart_ctx (orEmpty (c_messages st) sessionID) messageID partID)\<rparr>"
| "handleEvent st fetched (MessageCreated i ps) = st"
| "handleEvent st fetched (OtherEvent t) = st"

text \<open>\<^verbatim>\<open>prompt\<close>: the text is tested trimmed and sent as typed; a failed request is written
  to the console only.\<close>

definition prompt_ctx ::
  "ProviderState \<Rightarrow> string \<Rightarrow> jsText \<Rightarrow> (string \<Rightarrow> jsText \<Rightarrow> MessageWithParts apiResult)
     \<Rightarrow> thrown + ProviderState" where
  "prompt_ctx st0 sessionID input_text send =
     (if trim input_text = [] then Inr st0
      else
        (let st = st0\<lparr>c_busySessionIDs := insert sessionID (c_busySessionIDs st0)\<rparr>;
             st' =
               (case send sessionID input_text of
                  Ok response \<Rightarrow>
                    st\<lparr>c_messages := (c_messages st)
                         (sessionID \<mapsto> mergeMessage_ctx (orEmpty (c_messages st) sessionID) response)\<rparr>
                | Failed e \<Rightarrow> st)
         in Inr (st'\<lparr>c_busySessionIDs := c_busySessionIDs st' - {sessionID}\<rparr>)))"

section \<open>Open tabs of the file store (context/local.tsx)\<close>

record LocalFile =
  f_path :: string
  f_loaded :: bool
  f_pinned :: bool
  f_content :: "string option"
  f_view :: "string option"

record FileStore =
  node :: "string \<rightharpoonup> LocalFile"
  opened :: "string list"
  active :: "string option"

text \<open>\<^verbatim>\<open>resetNode\<close>: \<^verbatim>\<open>setStore("node", path, undefined!)\<close> removes the entry.\<close>

definition resetNode :: "FileStore \<Rightarrow> string \<Rightarrow> FileStore" where
  "resetNode store path = store\<lparr>node := (node store)(path := None)\<rparr>"

text \<open>\<^verbatim>\<open>close\<close>: the three store writes in the order of the source; the index is looked up
  in \<^verbatim>\<open>store.opened\<close> after the first write.\<close>

definition close :: "FileStore \<Rightarrow> string \<Rightarrow> FileStore" where
  "close store0 path =
     (let store1 = store0\<lparr>opened := filter (\<lambda>x. x \<noteq> path) (opened store0)\<rparr>;
          store2 =
            (if active store1 = Some path
             then
               (let index = findIndex (\<lambda>f. f = path) (opened store1);
                    previous = at_index (opened store1) (nat (max 0 (index - 1)))
                in store1\<lparr>active := previous\<rparr>)
             else store1)
      in resetNode store2 path)"

section \<open>The persisted configuration (services/opencode-client.ts)\<close>

text \<open>A parsed JSON value. An object is the list of its members; \<^verbatim>\<open>JSON.parse\<close> keeps one
  member per key.\<close>

datatype json =
    JNull
  | JBool bool
  | JNumber int
  | JString string
  | JArray "json list"
  | JObject "(string \<times> json) list"

text \<open>\<^verbatim>\<open>typeof parsed !== "object" || parsed === null\<close>.\<close>

fun notAnObject :: "json \<Rightarrow> bool" where
  "notAnObject (JArray _) = False"
| "notAnObject (JObject _) = False"
| "notAnObject _ = True"

text \<open>\<^verbatim>\<open>parsed.key\<close> with \<^verbatim>\<open>typeof ... === "string"\<close>: the member when it is a string. An
  array has neither a \<^verbatim>\<open>baseUrl\<close> nor a \<^verbatim>\<open>directory\<close> property.\<close>

fun stringMember :: "json \<Rightarrow> string \<Rightarrow> string option" where
  "stringMember (JObject ms) key =
     (case map_of ms key of Some (JString v) \<Rightarrow> Some v | _ \<Rightarrow> None)"
| "stringMember _ key = None"

definition defaultConfig :: "string \<Rightarrow> OpencodeConfig" where
  "defaultConfig DEFAULT_BASE_URL = \<lparr>baseUrl = DEFAULT_BASE_URL, directory = None\<rparr>"

text \<open>The body of the \<^verbatim>\<open>try\<close> block. \<open>getItem\<close> is the outcome of
  \<^verbatim>\<open>window.localStorage.getItem(CONFIG_STORAGE_KEY)\<close>, which may throw or return \<^verbatim>\<open>null\<close>;
  \<open>parse\<close> is \<^verbatim>\<open>JSON.parse\<close>, which throws on text that is not JSON.\<close>

definition readConfig_try ::
  "string \<Rightarrow> thrown + string option \<Rightarrow> (string \<Rightarrow> thrown + json) \<Rightarrow> thrown + OpencodeConfig" where
  "readConfig_try DEFAULT_BASE_URL getItem parse =
     (case getItem of
        Inl e \<Rightarrow> Inl e
      | Inr None \<Rightarrow> Inr (defaultConfig DEFAULT_BASE_URL)
      | Inr (Some raw) \<Rightarrow>
          if raw = [] then Inr (defaultConfig DEFAULT_BASE_URL)
          else
            (case parse raw of
               Inl e \<Rightarrow> Inl e
             | Inr parsed \<Rightarrow>
                 if notAnObject parsed then Inl (ErrorObject ''invalid config'')
                 else Inr \<lparr>baseUrl =
                             (case stringMember parsed ''baseUrl'' of
                                Some b \<Rightarrow> b | None \<Rightarrow> DEFAULT_BASE_URL),
                           directory = stringMember parsed ''directory''\<rparr>))"

text \<open>\<^verbatim>\<open>readConfig\<close>: \<open>hasWindow\<close> is \<^verbatim>\<open>typeof window !== "undefined"\<close>; the \<^verbatim>\<open>catch\<close>
  clause turns every exception of the body into the default configuration.\<close>

definition readConfig ::
  "string \<Rightarrow> bool \<Rightarrow> thrown + string option \<Rightarrow> (string \<Rightarrow> thrown + json)
     \<Rightarrow> thrown + OpencodeConfig" where
  "readConfig DEFAULT_BASE_URL hasWindow getItem parse =
     (if \<not> hasWindow then Inr (defaultConfig DEFAULT_BASE_URL)
      else
        (case readConfig_try DEFAULT_BASE_URL getItem parse of
           Inl e \<Rightarrow> Inr (defaultConfig DEFAULT_BASE_URL)
         | Inr c \<Rightarrow> Inr c))"

section \<open>The active-messages view\<close>

text \<open>The view \<open>v\<close> agrees with the cache \<open>m\<close> for the active session \<open>a\<close>: it is
  \<^verbatim>\<open>messages[activeSessionID] ?? []\<close>, or it is empty while no session is active, where
  the stores take \<^verbatim>\<open>undefined\<close> and the empty id for "no session".\<close>

definition viewConsistent :: "MessageMap \<Rightarrow> string option \<Rightarrow> MessageWithParts list \<Rightarrow> bool" where
  "viewConsistent m a v =
     (case a of None \<Rightarrow> v = [] | Some k \<Rightarrow> v = orEmpty m k \<or> (k = [] \<and> v = []))"

definition storeConsistent :: "OpencodeStoreState \<Rightarrow> bool" where
  "storeConsistent state =
     viewConsistent (messages state) (activeSessionID state) (activeMessages state)"

section \<open>Example values\<close>

definition sessA :: SessionInfo where
  "sessA = \<lparr>s_id = ''s'', s_title = ''a'', s_updated = 5\<rparr>"

definition sessB :: SessionInfo where
  "sessB = \<lparr>s_id = ''s'', s_title = ''b'', s_updated = 10\<rparr>"

definition sessC :: SessionInfo where
  "sessC = \<lparr>s_id = ''s'', s_title = ''c'', s_updated = 7\<rparr>"

definition sess1 :: SessionInfo where
  "sess1 = \<lparr>s_id = ''s1'', s_title = ''first'', s_updated = 100\<rparr>"

definition sess2 :: SessionInfo where
  "sess2 = \<lparr>s_id = ''s2'', s_title = ''second'', s_updated = 200\<rparr>"

definition msg1 :: MessageWithParts where
  "msg1 = \<lparr>info = \<lparr>m_id = ''m1'', m_sessionID = ''s1'', m_created = Some 1, m_role = ''user''\<rparr>,
           parts = []\<rparr>"

definition msg2 :: MessageWithParts where
  "msg2 = \<lparr>info = \<lparr>m_id = ''m2'', m_sessionID = ''s1'', m_created = Some 2, m_role = ''assistant''\<rparr>,
           parts = []\<rparr>"

definition msg1_later :: MessageWithParts where
  "msg1_later = \<lparr>info = \<lparr>m_id = ''m1'', m_sessionID = ''s1'', m_created = Some 2, m_role = ''user''\<rparr>,
                 parts = []\<rparr>"

definition part1 :: MessagePart where
  "part1 = \<lparr>p_id = ''p1'', p_messageID = ''m1'', p_sessionID = ''s1'', p_body = ''running''\<rparr>"

definition localConfig :: OpencodeConfig where
  "localConfig = \<lparr>baseUrl = ''http://127.0.0.1:4096'', directory = None\<rparr>"

text \<open>A zustand store in which a prompt for session \<open>s1\<close> is already in flight, a request
  that fails with a network error, and the store after a second prompt for \<open>s1\<close> has
  failed.\<close>

definition busyStore :: OpencodeStoreState where
  "busyStore = (initialState localConfig)\<lparr>sessions := [sess1], busySessionIDs := {''s1''}\<rparr>"

definition failingSend :: "string \<Rightarrow> jsText \<Rightarrow> MessageWithParts apiResult" where
  "failingSend sessionID t = Failed (ErrorObject ''Failed to fetch'')"

text \<open>A request that succeeds with the message \<open>m2\<close>; the text \<open>hi\<close>; and a text of a
  no-break space, an em space and a byte order mark.\<close>

definition answeringSend :: "string \<Rightarrow> jsText \<Rightarrow> MessageWithParts apiResult" where
  "answeringSend sessionID t = Ok msg2"

definition hiText :: jsText where
  "hiText = [0x68, 0x69]"

definition blankText :: jsText where
  "blankText = [0x00A0, 0x2003, 0xFEFF]"

definition afterFailedPrompt :: OpencodeStoreState where
  "afterFailedPrompt =
     (initialState localConfig)\<lparr>sessions := [sess1], busySessionIDs := {},
                                lastError := Some ''Failed to fetch''\<rparr>"

text \<open>A context store that knows session \<open>s1\<close> with a prompt in flight, and a context
  store and a zustand store whose active session \<open>s9\<close> is not on the server any more.\<close>

definition busyProvider :: ProviderState where
  "busyProvider =
     initialProviderState\<lparr>c_sessions := [sess1], c_activeSessionID := Some ''s1'',
                           c_busySessionIDs := {''s1''}\<rparr>"

definition staleProvider :: ProviderState where
  "staleProvider = initialProviderState\<lparr>c_activeSessionID := Some ''s9''\<rparr>"

definition staleStore :: OpencodeStoreState where
  "staleStore = (initialState localConfig)\<lparr>activeSessionID := Some ''s9''\<rparr>"

text \<open>Three open tabs, the last one active.\<close>

definition fileNode :: "string \<Rightarrow> LocalFile" where
  "fileNode p = \<lparr>f_path = p, f_loaded = True, f_pinned = False, f_content = Some ''text'',
                 f_view = None\<rparr>"

definition threeTabs :: FileStore where
  "threeTabs =
     \<lparr>node = [''a'' \<mapsto> fileNode ''a'', ''b'' \<mapsto> fileNode ''b'', ''c'' \<mapsto> fileNode ''c''],
      opened = [''a'', ''b'', ''c''], active = Some ''c''\<rparr>"

text \<open>A stored configuration whose directory is not a string.\<close>

definition storedJson :: json where
  "storedJson = JObject [(''baseUrl'', JString ''http://10.0.0.2:4096''), (''directory'', JNumber 3)]"

section \<open>Properties of the array helpers\<close>

lemma findIndex_neg_iff: "findIndex P xs < 0 \<longleftrightarrow> (\<forall>x \<in> set xs. \<not> P x)"
  by (induction xs) (auto simp: Let_def)

lemma findIndex_nonneg:
  "0 \<le> findIndex P xs \<Longrightarrow> nat (findIndex P xs) < length xs \<and> P (xs ! nat (findIndex P xs))"
proof (induction xs)
  case Nil
  then show ?case by simp
next
  case (Cons x xs)
  show ?case
  proof (cases "P x")
    case True
    then show ?thesis by simp
  next
    case False
    with Cons.prems have nn: "0 \<le> findIndex P xs"
      by (simp add: Let_def split: if_splits)
    with Cons.IH have ih: "nat (findIndex P xs) < length xs" "P (xs ! nat (findIndex P xs))"
      by simp_all
    from nn have "nat (findIndex P xs + 1) = Suc (nat (findIndex P xs))" by simp
    with False nn ih show ?thesis by (simp add: Let_def)
  qed
qed

lemma same_key_same_element:
  "distinct (map f xs) \<Longrightarrow> x \<in> set xs \<Longrightarrow> y \<in> set xs \<Longrightarrow> f x = f y \<Longrightarrow> x = y"
  by (meson distinct_map inj_onD)

lemma update_keeps_keys:
  "i < length xs \<Longrightarrow> f (xs ! i) = f y \<Longrightarrow> map f (xs[i := y]) = map f xs"
  by (simp add: map_update list_update_same_conv)

lemma mset_map_sort_key: "mset (map f (sort_key g xs)) = mset (map f xs)"
  by simp

text \<open>Sorting a list again after appending to its sorted form is sorting the whole: the
  sort is stable.\<close>

lemma sort_key_sort_key_append:
  "sort_key f (sort_key f xs @ ys) = sort_key f (xs @ ys)"
proof (rule properties_for_sort_key)
  show "mset (sort_key f (xs @ ys)) = mset (sort_key f xs @ ys)" by simp
  show "sorted (map f (sort_key f (xs @ ys)))" by simp
  fix k
  have "filter (\<lambda>x. f x = f k) (sort_key f (xs @ ys)) = filter (\<lambda>x. f x = f k) (sort_key f xs @ ys)"
    by (simp add: sort_key_stable)
  then show "filter (\<lambda>x. f k = f x) (sort_key f (xs @ ys)) = filter (\<lambda>x. f k = f x) (sort_key f xs @ ys)"
    by (simp add: eq_commute)
qed

text \<open>With pairwise distinct keys, at most one element has a given key, so the elements of
  one key come in the same order in every arrangement of the collection.\<close>

lemma filter_key_short:
  "distinct (map f xs) \<Longrightarrow> length (filter (\<lambda>x. f x = c) xs) \<le> 1"
proof (induction xs)
  case Nil
  then show ?case by simp
next
  case (Cons x xs)
  show ?case
  proof (cases "f x = c")
    case True
    have "f x \<notin> f ` set xs" using Cons.prems by simp
    then have "\<forall>y \<in> set xs. f y \<noteq> f x" by (metis image_eqI)
    with True have "filter (\<lambda>y. f y = c) xs = []"
      by (simp add: filter_empty_conv)
    with True show ?thesis by simp
  next
    case False
    with Cons show ?thesis by simp
  qed
qed

lemma short_list_by_mset:
  assumes m: "mset a = mset b" and l: "length a \<le> 1"
  shows "a = b"
proof (cases a)
  case Nil
  with m show ?thesis by simp
next
  case (Cons x xs)
  with l have a: "a = [x]" by simp
  with m have "mset b = {#x#}" by simp
  then have "b = [x]" by (metis mset_single_iff_right)
  with a show ?thesis by simp
qed

lemma filter_key_perm:
  assumes "mset ys = mset xs" and "distinct (map f xs)"
  shows "filter (\<lambda>x. f x = c) ys = filter (\<lambda>x. f x = c) xs"
proof (rule short_list_by_mset)
  show "mset (filter (\<lambda>x. f x = c) ys) = mset (filter (\<lambda>x. f x = c) xs)"
    using assms(1) by simp
  have "distinct (map f ys)" using assms by (metis mset_eq_imp_distinct_iff mset_map)
  then show "length (filter (\<lambda>x. f x = c) ys) \<le> 1" by (rule filter_key_short)
qed

text \<open>Sorting a list followed by new elements with pairwise distinct keys does not depend
  on the order of the new elements.\<close>

lemma sort_key_append_perm:
  assumes "mset ys = mset xs" and "distinct (map f xs)"
  shows "sort_key f (l @ ys) = sort_key f (l @ xs)"
proof (rule properties_for_sort_key)
  show "mset (sort_key f (l @ xs)) = mset (l @ ys)" using assms(1) by simp
  show "sorted (map f (sort_key f (l @ xs)))" by simp
  fix k
  have "filter (\<lambda>x. f x = f k) (sort_key f (l @ xs)) = filter (\<lambda>x. f x = f k) (l @ xs)"
    by (rule sort_key_stable)
  also have "\<dots> = filter (\<lambda>x. f x = f k) (l @ ys)"
    using filter_key_perm [OF assms, of "f k"] by simp
  finally show "filter (\<lambda>x. f k = f x) (sort_key f (l @ xs)) = filter (\<lambda>x. f k = f x) (l @ ys)"
    by (simp add: eq_commute)
qed

section \<open>Merging a session into the session list\<close>

lemma mergeOrInsert_eq: "mergeOrInsert l s = mergeSessions l s"
  by (simp add: mergeOrInsert_def mergeSessions_def)

lemma mergeSessions_sorted: "sorted (map (\<lambda>a. - s_updated a) (mergeSessions l s))"
  by (simp add: mergeSessions_def sortByUpdatedDesc_def Let_def)

lemma mergeSessions_mem: "s \<in> set (mergeSessions l s)"
  using findIndex_nonneg [of "\<lambda>item. s_id item = s_id s" l]
  by (auto simp: mergeSessions_def sortByUpdatedDesc_def Let_def set_update_memI)

lemma mergeSessions_distinct:
  assumes "distinct (map s_id l)"
  shows "distinct (map s_id (mergeSessions l s))"
proof (cases "0 \<le> findIndex (\<lambda>item. s_id item = s_id s) l")
  case True
  from findIndex_nonneg [OF True]
  have i: "nat (findIndex (\<lambda>item. s_id item = s_id s) l) < length l"
    and k: "s_id (l ! nat (findIndex (\<lambda>item. s_id item = s_id s) l)) = s_id s"
    by simp_all
  have m: "map s_id (l[nat (findIndex (\<lambda>item. s_id item = s_id s) l) := s]) = map s_id l"
    using i k by (rule update_keeps_keys)
  have "mset (map s_id (mergeSessions l s)) = mset (map s_id l)"
    using True m
    by (simp only: mergeSessions_def sortByUpdatedDesc_def Let_def if_True mset_map_sort_key)
  then show ?thesis using assms by (metis mset_eq_imp_distinct_iff)
next
  case False
  then have "\<forall>x \<in> set l. s_id x \<noteq> s_id s"
    using findIndex_neg_iff [of "\<lambda>item. s_id item = s_id s" l] by simp
  then have "distinct (map s_id (l @ [s]))" using assms by auto
  moreover have "mset (map s_id (mergeSessions l s)) = mset (map s_id (l @ [s]))"
    using False
    by (simp only: mergeSessions_def sortByUpdatedDesc_def Let_def if_False mset_map_sort_key)
  ultimately show ?thesis by (metis mset_eq_imp_distinct_iff)
qed

lemma mergeSessions_twice:
  assumes "distinct (map s_id l)"
  shows "mergeSessions (mergeSessions l s) s = mergeSessions l s"
proof -
  let ?l1 = "mergeSessions l s"
  let ?j = "findIndex (\<lambda>item. s_id item = s_id s) ?l1"
  have d: "distinct (map s_id ?l1)" using assms by (rule mergeSessions_distinct)
  have mem: "s \<in> set ?l1" by (rule mergeSessions_mem)
  then have "\<not> ?j < 0" using findIndex_neg_iff [of "\<lambda>item. s_id item = s_id s" ?l1] by auto
  then have nn: "0 \<le> ?j" by simp
  from findIndex_nonneg [OF nn]
  have j: "nat ?j < length ?l1" and k: "s_id (?l1 ! nat ?j) = s_id s" by simp_all
  have "?l1 ! nat ?j = s"
    using d _ mem k by (rule same_key_same_element) (simp add: j)
  then have upd: "?l1[nat ?j := s] = ?l1" by (metis list_update_id)
  have "sortByUpdatedDesc ?l1 = ?l1"
    unfolding sortByUpdatedDesc_def
    by (rule sort_key_id_if_sorted) (rule mergeSessions_sorted)
  with nn upd show ?thesis
    by (simp add: mergeSessions_def [of ?l1] Let_def)
qed

text \<open>
  Claim C6, as stated: for every list \<open>l\<close> and session \<open>s\<close>, merging \<open>s\<close> twice gives the
  list that merging it once gives. The merge replaces only the first entry with the id of
  \<open>s\<close>, so this fails on a list that holds the id twice: merging \<open>sessC\<close> into
  \<open>[sessA, sessB]\<close> (all three with the id \<open>s\<close>) gives \<open>[sessB, sessC]\<close>, and merging it
  again gives \<open>[sessC, sessC]\<close>.
\<close>

theorem C6_merge_twice_counterexample:
  "mergeSessions (mergeSessions [sessA, sessB] sessC) sessC \<noteq> mergeSessions [sessA, sessB] sessC"
  by (simp add: mergeSessions_def sortByUpdatedDesc_def sessA_def sessB_def sessC_def)

text \<open>
  Claim C6, amended: for every session list \<open>l\<close> whose ids are pairwise distinct and every
  session \<open>s\<close>, merging \<open>s\<close> into \<open>l\<close> twice yields exactly the list that merging it once
  yields; this holds for \<^const>\<open>mergeSessions\<close> of the zustand store and for
  \<^const>\<open>mergeOrInsert\<close> of the context store.
\<close>

theorem C6_merge_idempotent:
  assumes "distinct (map s_id l)"
  shows "mergeSessions (mergeSessions l s) s = mergeSessions l s
       \<and> mergeOrInsert (mergeOrInsert l s) s = mergeOrInsert l s"
  using mergeSessions_twice [OF assms, of s] by (simp add: mergeOrInsert_eq)

theorem C6_merge_idempotent_witness:
  "distinct (map s_id [sess1])
   \<and> mergeSessions (mergeSessions [sess1] sess2) sess2 = mergeSessions [sess1] sess2
   \<and> mergeSessions [sess1] sess2 = [sess2, sess1]
   \<and> mergeOrInsert (mergeOrInsert [sess1] sess2) sess2 = mergeOrInsert [sess1] sess2"
proof -
  have d: "distinct (map s_id [sess1])" by simp
  have "mergeSessions [sess1] sess2 = [sess2, sess1]"
    by (simp add: mergeSessions_def sortByUpdatedDesc_def sess1_def sess2_def)
  with d C6_merge_idempotent [OF d, of sess2] show ?thesis by simp
qed

section \<open>Merging messages into a message list\<close>

lemma message_eta: "\<lparr>info = info m, parts = parts m\<rparr> = m"
  by simp

lemma mergeMessage_ctx_eq: "mergeMessage_ctx l m = mergeMessageList l m"
  by (simp only: mergeMessage_ctx_def mergeMessageList_def message_eta)

lemma mergeMessageList_fresh:
  "\<forall>x \<in> set l. m_id (info x) \<noteq> m_id (info m) \<Longrightarrow> mergeMessageList l m = sortByCreated (l @ [m])"
  using findIndex_neg_iff [of "\<lambda>item. m_id (info item) = m_id (info m)" l]
  by (simp add: mergeMessageList_def Let_def)

lemma fold_fresh:
  "distinct (map (\<lambda>x. m_id (info x)) ms) \<Longrightarrow>
   (\<forall>x \<in> set l. \<forall>y \<in> set ms. m_id (info x) \<noteq> m_id (info y)) \<Longrightarrow>
   foldl mergeMessageList l ms = (if ms = [] then l else sortByCreated (l @ ms))"
proof (induction ms arbitrary: l)
  case Nil
  then show ?case by simp
next
  case (Cons m ms)
  have step: "mergeMessageList l m = sortByCreated (l @ [m])"
    using Cons.prems(2) by (intro mergeMessageList_fresh) simp
  have fresh: "\<forall>x \<in> set (sortByCreated (l @ [m])). \<forall>y \<in> set ms. m_id (info x) \<noteq> m_id (info y)"
    using Cons.prems by (auto simp: sortByCreated_def)
  have d: "distinct (map (\<lambda>x. m_id (info x)) ms)" using Cons.prems(1) by simp
  show ?case
  proof (cases "ms = []")
    case True
    then show ?thesis using step by simp
  next
    case False
    have "foldl mergeMessageList (sortByCreated (l @ [m])) ms
            = sortByCreated (sortByCreated (l @ [m]) @ ms)"
      using Cons.IH [OF d fresh] False by simp
    also have "\<dots> = sortByCreated ((l @ [m]) @ ms)"
      unfolding sortByCreated_def by (rule sort_key_sort_key_append)
    finally show ?thesis using step by simp
  qed
qed

lemma fold_from_empty:
  "distinct (map (\<lambda>x. m_id (info x)) ms) \<Longrightarrow> foldl mergeMessageList [] ms = sortByCreated ms"
  using fold_fresh [of ms "[]"] by (simp add: sortByCreated_def)

lemma mergeMessageList_sorted: "sorted (map createdKey (mergeMessageList l m))"
  by (simp add: mergeMessageList_def sortByCreated_def Let_def)

lemma fold_sorted:
  "sorted (map createdKey l) \<Longrightarrow> sorted (map createdKey (foldl mergeMessageList l ms))"
  by (induction ms arbitrary: l) (simp_all add: mergeMessageList_sorted)

lemma fold_sorted_nonempty:
  "ms \<noteq> [] \<Longrightarrow> sorted (map createdKey (foldl mergeMessageList l ms))"
  by (cases ms) (simp_all add: fold_sorted mergeMessageList_sorted)

lemma fold_order_independent:
  assumes "distinct (map (\<lambda>x. m_id (info x)) ms)"
    and "\<forall>x \<in> set l. \<forall>y \<in> set ms. m_id (info x) \<noteq> m_id (info y)"
    and "distinct (map createdKey ms)"
    and "mset ms' = mset ms"
  shows "foldl mergeMessageList l ms' = foldl mergeMessageList l ms"
proof -
  have d': "distinct (map (\<lambda>x. m_id (info x)) ms')"
    using assms(1,4) by (metis mset_eq_imp_distinct_iff mset_map)
  have s: "set ms' = set ms" using assms(4) by (rule mset_eq_setD)
  have f': "\<forall>x \<in> set l. \<forall>y \<in> set ms'. m_id (info x) \<noteq> m_id (info y)"
    using assms(2) s by simp
  have e: "ms' = [] \<longleftrightarrow> ms = []" using s by auto
  have "foldl mergeMessageList l ms' = (if ms' = [] then l else sortByCreated (l @ ms'))"
    using d' f' by (rule fold_fresh)
  moreover have "foldl mergeMessageList l ms = (if ms = [] then l else sortByCreated (l @ ms))"
    using assms(1,2) by (rule fold_fresh)
  moreover have "sortByCreated (l @ ms') = sortByCreated (l @ ms)"
    unfolding sortByCreated_def using assms(4,3) by (rule sort_key_append_perm)
  ultimately show ?thesis using e by simp
qed

lemma fold_ctx_eq: "foldl mergeMessage_ctx l ms = foldl mergeMessageList l ms"
  by (induction ms arbitrary: l) (simp_all add: mergeMessage_ctx_eq)

text \<open>
  Claim C5, as stated: for message.created events with pairwise distinct creation times,
  every delivery order yields the same sorted list. The merge is an upsert by message id,
  so two events that carry the same id with different creation times leave only the one
  delivered last: \<open>msg1\<close> and \<open>msg1_later\<close> (both with the id \<open>m1\<close>, created at 1 and at 2)
  give \<open>[msg1_later]\<close> in one order and \<open>[msg1]\<close> in the other.
\<close>

theorem C5_delivery_order_counterexample:
  "foldl mergeMessageList [] [msg1, msg1_later] \<noteq> foldl mergeMessageList [] [msg1_later, msg1]"
  by (simp add: mergeMessageList_def sortByCreated_def msg1_def msg1_later_def)

text \<open>
  Claim C5, amended: folding a sequence of message.created events into a session's
  message list \<open>l\<close> yields a list sorted ascending by creation time (read as
  \<^verbatim>\<open>time.created ?? 0\<close>) in every delivery order, as soon as there is one event or \<open>l\<close> was
  sorted; from the empty list it always does. When the messages \<open>ms\<close> have pairwise
  distinct ids that \<open>l\<close> does not hold yet, as well as pairwise distinct creation times,
  every delivery order \<open>ms'\<close> of them yields the same list; from the empty list that is
  the messages sorted by creation time. Both stores' merge functions agree.
\<close>

theorem C5_delivery_order:
  "(ms' \<noteq> [] \<longrightarrow> sorted (map createdKey (foldl mergeMessageList l ms')))
   \<and> sorted (map createdKey (foldl mergeMessageList [] ms'))
   \<and> foldl mergeMessage_ctx l ms' = foldl mergeMessageList l ms'
   \<and> (distinct (map (\<lambda>x. m_id (info x)) ms)
        \<and> (\<forall>x \<in> set l. \<forall>y \<in> set ms. m_id (info x) \<noteq> m_id (info y))
        \<and> distinct (map createdKey ms) \<and> mset ms' = mset ms
        \<longrightarrow> foldl mergeMessageList l ms' = foldl mergeMessageList l ms)
   \<and> (distinct (map (\<lambda>x. m_id (info x)) ms) \<longrightarrow> foldl mergeMessageList [] ms = sortByCreated ms)"
proof (intro conjI impI)
  show "sorted (map createdKey (foldl mergeMessageList [] ms'))"
    by (rule fold_sorted) simp
  show "foldl mergeMessage_ctx l ms' = foldl mergeMessageList l ms'"
    by (rule fold_ctx_eq)
next
  assume "ms' \<noteq> []"
  then show "sorted (map createdKey (foldl mergeMessageList l ms'))"
    by (rule fold_sorted_nonempty)
next
  assume "distinct (map (\<lambda>x. m_id (info x)) ms)
        \<and> (\<forall>x \<in> set l. \<forall>y \<in> set ms. m_id (info x) \<noteq> m_id (info y))
        \<and> distinct (map createdKey ms) \<and> mset ms' = mset ms"
  then show "foldl mergeMessageList l ms' = foldl mergeMessageList l ms"
    by (intro fold_order_independent) simp_all
next
  assume "distinct (map (\<lambda>x. m_id (info x)) ms)"
  then show "foldl mergeMessageList [] ms = sortByCreated ms"
    by (rule fold_from_empty)
qed

theorem C5_delivery_order_witness:
  "distinct (map (\<lambda>x. m_id (info x)) [msg1, msg2]) \<and> distinct (map createdKey [msg1, msg2])
   \<and> mset [msg2, msg1] = mset [msg1, msg2]
   \<and> foldl mergeMessageList [] [msg2, msg1] = foldl mergeMessageList [] [msg1, msg2]
   \<and> foldl mergeMessageList [] [msg2, msg1] = [msg1, msg2]
   \<and> sorted (map createdKey [msg1, msg2])"
proof -
  have h: "distinct (map (\<lambda>x. m_id (info x)) [msg1, msg2])
      \<and> (\<forall>x \<in> set []. \<forall>y \<in> set [msg1, msg2]. m_id (info x) \<noteq> m_id (info y))
      \<and> distinct (map createdKey [msg1, msg2])
      \<and> mset [msg2, msg1] = mset [msg1, msg2]"
    by (simp add: msg1_def msg2_def createdKey_def)
  have e: "foldl mergeMessageList [] [msg2, msg1] = [msg1, msg2]"
    by (simp add: mergeMessageList_def sortByCreated_def msg1_def msg2_def createdKey_def)
  from C5_delivery_order [of "[msg2, msg1]" "[]" "[msg1, msg2]"] h
  have q: "foldl mergeMessageList [] [msg2, msg1] = foldl mergeMessageList [] [msg1, msg2]"
    and srt: "sorted (map createdKey (foldl mergeMessageList [] [msg2, msg1]))"
    by blast+
  from srt have "sorted (map createdKey [msg1, msg2])" by (simp only: e)
  with h q e show ?thesis by blast
qed

section \<open>The message.created event\<close>

text \<open>In the zustand store the event upserts the message into the list of its session:
  the list afterwards is sorted by creation time, holds the message, and is the old list
  with the first entry of that id replaced, or with the message added when no entry has
  the id. The lists of the other sessions stay as they are.\<close>

lemma mergeMessageList_upsert:
  "sorted (map createdKey (mergeMessageList l m))
   \<and> m \<in> set (mergeMessageList l m)
   \<and> mset (mergeMessageList l m) =
       (if findIndex (\<lambda>item. m_id (info item) = m_id (info m)) l \<ge> 0
        then mset (l[nat (findIndex (\<lambda>item. m_id (info item) = m_id (info m)) l) := m])
        else add_mset m (mset l))"
  using findIndex_nonneg [of "\<lambda>item. m_id (info item) = m_id (info m)" l]
  by (auto simp: mergeMessageList_def sortByCreated_def Let_def set_update_memI)

lemma created_event_in_store:
  "messages (onServerEvent s f (MessageCreated i ps)) (m_sessionID i)
     = Some (mergeMessageList (orEmpty (messages s) (m_sessionID i)) \<lparr>info = i, parts = ps\<rparr>)
   \<and> (\<forall>k. k \<noteq> m_sessionID i \<longrightarrow>
         messages (onServerEvent s f (MessageCreated i ps)) k = messages s k)"
  by (simp add: mergeMessage_def Let_def)

text \<open>The context store has no branch for the event: every state stays as it is.\<close>

lemma created_event_in_provider: "handleEvent st f (MessageCreated i ps) = st"
  by simp

text \<open>
  Claim C1: folding a message.created event upserts the message into the list of the
  event's session and leaves that list sorted by creation time. The zustand store does so
  (\<open>mergeMessageList_upsert\<close>, \<open>created_event_in_store\<close>); \<^verbatim>\<open>handleEvent\<close> of the context
  store tests for nine event types and message.created is not among them. On the empty
  stores, the event for message \<open>m1\<close> of session \<open>s1\<close> leaves the context store without a
  list for \<open>s1\<close>, while the zustand store then holds \<open>[msg1]\<close>.
\<close>

theorem C1_created_event_dropped:
  "c_messages (handleEvent initialProviderState fetched (MessageCreated (info msg1) (parts msg1))) ''s1''
     = None
   \<and> handleEvent initialProviderState fetched (MessageCreated (info msg1) (parts msg1))
     = initialProviderState
   \<and> messages (onServerEvent (initialState localConfig) fetched
                 (MessageCreated (info msg1) (parts msg1))) ''s1''
     = Some [msg1]"
  by (simp add: initialProviderState_def initialState_def mergeMessage_def mergeMessageList_def
      sortByCreated_def orEmpty_def msg1_def Let_def)

section \<open>The message.part.updated event for an unknown message\<close>

lemma mergeMessagePartList_unknown:
  "\<forall>x \<in> set l. m_id (info x) \<noteq> p_messageID part \<Longrightarrow> mergeMessagePartList l part = l"
  using findIndex_neg_iff [of "\<lambda>item. m_id (info item) = p_messageID part" l]
  by (simp add: mergeMessagePartList_def Let_def)

text \<open>In the zustand store a part whose message no cached list holds changes nothing,
  given that the view of the part's session, when that session is active, is its cached
  list.\<close>

lemma updateMessagePart_unknown:
  assumes "\<forall>k l. messages s k = Some l \<longrightarrow> (\<forall>x \<in> set l. m_id (info x) \<noteq> p_messageID part)"
    and "activeSessionID s = Some (p_sessionID part) \<longrightarrow>
           activeMessages s = orEmpty (messages s) (p_sessionID part)"
  shows "updateMessagePart s part = s"
proof (cases "messages s (p_sessionID part)")
  case None
  then show ?thesis by (simp add: updateMessagePart_def)
next
  case (Some l)
  with assms(1) have "mergeMessagePartList l part = l"
    by (intro mergeMessagePartList_unknown) blast
  moreover have "(messages s)(p_sessionID part \<mapsto> l) = messages s"
    using Some by (simp add: map_upd_triv)
  ultimately show ?thesis using Some assms(2)
    by (simp add: updateMessagePart_def Let_def orEmpty_def)
qed

text \<open>
  Claim C2: a message.part.updated event whose message no cached list holds leaves the
  snapshot as it is, and creates no entry for the part's session. The zustand store
  returns early when the session has no list (\<open>updateMessagePart_unknown\<close>); the context
  store writes \<^verbatim>\<open>mergeMessagePart(prev[sessionID] ?? [], part)\<close> under the session's key
  without that test. On the empty stores, the event for part \<open>p1\<close> of message \<open>m1\<close> in
  session \<open>s1\<close> gives the context store the new key \<open>s1\<close> with an empty list, and leaves
  the zustand store unchanged.
\<close>

theorem C2_unknown_part_creates_entry:
  "c_messages initialProviderState = Map.empty
   \<and> c_messages (handleEvent initialProviderState fetched (MessagePartUpdated part1)) ''s1''
     = Some []
   \<and> updateMessagePart (initialState localConfig) part1 = initialState localConfig"
  by (simp add: initialProviderState_def initialState_def mergeMessagePart_def orEmpty_def
      updateMessagePart_def part1_def)

section \<open>The active-messages view stays consistent\<close>

lemma consistent_select: "storeConsistent (selectSession s k)"
  by (simp add: storeConsistent_def viewConsistent_def selectSession_def)

lemma cachedFor_consistent: "viewConsistent m a (cachedFor m a)"
  by (simp add: viewConsistent_def cachedFor_def split: option.splits)

lemma viewConsistent_other:
  "viewConsistent m a v \<Longrightarrow> a \<noteq> Some k \<Longrightarrow> viewConsistent (m(k := x)) a v"
  by (auto simp: viewConsistent_def orEmpty_def split: option.splits)

lemma viewConsistent_same: "viewConsistent (m(k \<mapsto> l)) (Some k) l"
  by (simp add: viewConsistent_def orEmpty_def)

lemma consistent_refresh:
  "storeConsistent s \<Longrightarrow> refreshSessions s r = Inr s' \<Longrightarrow> storeConsistent s'"
  by (cases r)
     (auto simp: storeConsistent_def refreshSessions_def Let_def cachedFor_consistent)

lemma consistent_load:
  "storeConsistent s \<Longrightarrow> loadMessages s k r = Inr s' \<Longrightarrow> storeConsistent s'"
  by (cases r)
     (auto simp: storeConsistent_def loadMessages_def Let_def viewConsistent_other
        viewConsistent_same)

lemma consistent_create: "createSession s r = Inr s' \<Longrightarrow> storeConsistent s'"
  by (cases r) (auto simp: storeConsistent_def createSession_def viewConsistent_def)

lemma consistent_removeState: "storeConsistent (removeSessionState s k)"
  by (simp add: storeConsistent_def removeSessionState_def Let_def cachedFor_consistent)

lemma consistent_delete: "deleteSession s k r = Inr s' \<Longrightarrow> storeConsistent s'"
  by (cases r) (auto simp: deleteSession_def consistent_removeState)

lemma consistent_setBusy: "storeConsistent s \<Longrightarrow> storeConsistent (setBusy s k b)"
  by (simp add: storeConsistent_def setBusy_def)

lemma consistent_mergeMessage: "storeConsistent s \<Longrightarrow> storeConsistent (mergeMessage s m)"
  by (auto simp: storeConsistent_def mergeMessage_def Let_def viewConsistent_other
       viewConsistent_same)

lemma consistent_prompt:
  "storeConsistent s \<Longrightarrow> prompt s k t send = Inr s' \<Longrightarrow> storeConsistent s'"
  by (cases "send k (trim t)")
     (auto simp: storeConsistent_def prompt_def setBusy_def Let_def viewConsistent_other
        viewConsistent_same split: if_splits)

lemma consistent_mergeSession: "storeConsistent s \<Longrightarrow> storeConsistent (mergeSession s i)"
  by (simp add: storeConsistent_def mergeSession_def)

lemma consistent_updateInfo: "storeConsistent s \<Longrightarrow> storeConsistent (updateMessageInfo s i)"
  by (auto simp: storeConsistent_def updateMessageInfo_def Let_def viewConsistent_other
       viewConsistent_same split: option.splits)

lemma consistent_updatePart: "storeConsistent s \<Longrightarrow> storeConsistent (updateMessagePart s p)"
  by (auto simp: storeConsistent_def updateMessagePart_def Let_def viewConsistent_other
       viewConsistent_same split: option.splits)

lemma consistent_removePart:
  "storeConsistent s \<Longrightarrow> storeConsistent (removeMessagePart s k m p)"
  by (auto simp: storeConsistent_def removeMessagePart_def Let_def viewConsistent_other
       viewConsistent_same split: option.splits)

lemma consistent_removeMessage: "storeConsistent s \<Longrightarrow> storeConsistent (removeMessage s k m)"
  by (auto simp: storeConsistent_def removeMessage_def Let_def viewConsistent_other
       viewConsistent_same split: option.splits)

lemma consistent_setLastError: "storeConsistent s \<Longrightarrow> storeConsistent (setLastError s e)"
  by (simp add: storeConsistent_def setLastError_def)

lemma consistent_outcome:
  "storeConsistent s \<Longrightarrow> (\<And>s'. r = Inr s' \<Longrightarrow> storeConsistent s')
     \<Longrightarrow> storeConsistent (outcomeState s r)"
  by (cases r) (simp_all add: outcomeState_def)

lemma consistent_event: "storeConsistent s \<Longrightarrow> storeConsistent (onServerEvent s f e)"
proof (cases e)
  case ServerConnected
  assume "storeConsistent s"
  then show ?thesis using ServerConnected
    by (auto intro: consistent_outcome consistent_refresh)
next
  case (SessionError k p)
  assume "storeConsistent s"
  then show ?thesis using SessionError
    by (auto simp: consistent_setLastError consistent_setBusy split: option.splits)
qed (simp_all add: consistent_mergeSession consistent_removeState consistent_setBusy
      consistent_mergeMessage consistent_updateInfo consistent_removeMessage
      consistent_updatePart consistent_removePart)

lemma consistent_perform: "storeConsistent s \<Longrightarrow> storeConsistent (perform s a)"
proof (cases a)
  case (SelectSession k)
  then show ?thesis by (simp add: consistent_select)
next
  case (RefreshSessions r)
  assume "storeConsistent s"
  then show ?thesis using RefreshSessions by (auto intro: consistent_outcome consistent_refresh)
next
  case (LoadMessages k r)
  assume "storeConsistent s"
  then show ?thesis using LoadMessages by (auto intro: consistent_outcome consistent_load)
next
  case (CreateSession r)
  assume "storeConsistent s"
  then show ?thesis using CreateSession by (auto intro: consistent_outcome consistent_create)
next
  case (DeleteSession k r)
  assume "storeConsistent s"
  then show ?thesis using DeleteSession by (auto intro: consistent_outcome consistent_delete)
next
  case (Prompt k t r)
  assume "storeConsistent s"
  then show ?thesis using Prompt by (auto intro: consistent_outcome consistent_prompt)
next
  case (Event e f)
  assume "storeConsistent s"
  then show ?thesis using Event by (simp add: consistent_event)
qed

lemma consistent_initial: "storeConsistent (initialState c)"
  by (simp add: storeConsistent_def viewConsistent_def initialState_def)

lemma consistent_run: "storeConsistent s \<Longrightarrow> storeConsistent (foldl perform s as)"
  by (induction as arbitrary: s) (simp_all add: consistent_perform)

lemma consistent_provider:
  "viewConsistent (c_messages st) (c_activeSessionID st) (activeMessages_ctx st)"
  by (simp add: viewConsistent_def activeMessages_ctx_def truthy_def split: option.splits)

text \<open>
  Claim C3: after every store operation (selectSession, refreshSessions, loadMessages,
  createSession, deleteSession, prompt, and the fold of any server event) the
  \<^verbatim>\<open>activeMessages\<close> view equals \<^verbatim>\<open>messages[activeSessionID]\<close> (an absent list read as
  empty), or is empty when no session is active. For the zustand store, which keeps the
  view as a field: the view is consistent after every sequence of operations from the
  initial store, whatever the requests return, and each single operation keeps it
  consistent. For the context store, which computes the view from its state: it is
  consistent in every state.
\<close>

theorem C3_active_view_consistent:
  "storeConsistent (foldl perform (initialState c) acts)
   \<and> (storeConsistent s \<longrightarrow> storeConsistent (perform s a))
   \<and> viewConsistent (c_messages st) (c_activeSessionID st) (activeMessages_ctx st)"
  by (simp add: consistent_run consistent_initial consistent_perform consistent_provider)

theorem C3_active_view_consistent_witness:
  "storeConsistent (selectSession (initialState localConfig) ''s1'')
   \<and> storeConsistent
       (perform (selectSession (initialState localConfig) ''s1'') (LoadMessages ''s1'' (Ok [msg1])))
   \<and> activeSessionID
       (perform (selectSession (initialState localConfig) ''s1'') (LoadMessages ''s1'' (Ok [msg1])))
       = Some ''s1''
   \<and> activeMessages
       (perform (selectSession (initialState localConfig) ''s1'') (LoadMessages ''s1'' (Ok [msg1])))
       = [msg1]"
proof -
  have h: "storeConsistent (selectSession (initialState localConfig) ''s1'')"
    by (simp add: storeConsistent_def viewConsistent_def selectSession_def)
  have e: "perform (selectSession (initialState localConfig) ''s1'') (LoadMessages ''s1'' (Ok [msg1]))
         = (initialState localConfig)\<lparr>messages := [''s1'' \<mapsto> [msg1]],
              activeSessionID := Some ''s1'', activeMessages := [msg1]\<rparr>"
    by (simp add: selectSession_def loadMessages_def outcomeState_def initialState_def orEmpty_def)
  from C3_active_view_consistent
    [of localConfig "[]" "selectSession (initialState localConfig) ''s1''"
        "LoadMessages ''s1'' (Ok [msg1])" initialProviderState] h
  have "storeConsistent
       (perform (selectSession (initialState localConfig) ''s1'') (LoadMessages ''s1'' (Ok [msg1])))"
    by blast
  with h e show ?thesis by simp
qed

section \<open>A prompt and the busy set\<close>

lemma trim_hiText: "trim hiText = hiText"
  by (simp add: trim_def isWhiteSpace_def hiText_def)

lemma hiText_nonempty: "hiText \<noteq> []"
  by (simp add: hiText_def)

lemma trim_blankText: "trim blankText = []"
  by (simp add: trim_def isWhiteSpace_def blankText_def)

text \<open>A text of white space only, the Unicode kinds included, is not sent.\<close>

lemma prompt_blank:
  "prompt s k blankText send = Inr s \<and> prompt_ctx st k blankText send = Inr st"
  by (simp add: prompt_def prompt_ctx_def trim_blankText)

lemma prompt_failed:
  assumes "trim t \<noteq> []" and "send k (trim t) = Failed e"
  shows "prompt s k t send =
           Inr (s\<lparr>busySessionIDs := (if k = [] then busySessionIDs s else busySessionIDs s - {k}),
                  lastError := Some (promptErrorText e)\<rparr>)"
  using assms by (simp add: prompt_def setBusy_def Let_def)

lemma prompt_ctx_failed:
  assumes "trim t \<noteq> []" and "send k t = Failed e"
  shows "prompt_ctx st k t send = Inr (st\<lparr>c_busySessionIDs := c_busySessionIDs st - {k}\<rparr>)"
  using assms by (simp add: prompt_ctx_def Let_def)

lemma prompt_answered:
  assumes "trim t \<noteq> []" and "send k (trim t) = Ok r"
  shows "prompt s k t send =
           Inr (s\<lparr>busySessionIDs := (if k = [] then busySessionIDs s else busySessionIDs s - {k}),
                  messages := (messages s)(k \<mapsto> mergeMessageList (orEmpty (messages s) k) r),
                  activeMessages :=
                    (if activeSessionID s = Some k
                     then mergeMessageList (orEmpty (messages s) k) r else activeMessages s)\<rparr>)"
  using assms by (simp add: prompt_def setBusy_def Let_def)

lemma prompt_ctx_answered:
  assumes "trim t \<noteq> []" and "send k t = Ok r"
  shows "prompt_ctx st k t send =
           Inr (st\<lparr>c_busySessionIDs := c_busySessionIDs st - {k},
                   c_messages := (c_messages st)
                     (k \<mapsto> mergeMessage_ctx (orEmpty (c_messages st) k) r)\<rparr>)"
  using assms by (simp add: prompt_ctx_def Let_def)

text \<open>Whatever the request returns, \<^verbatim>\<open>prompt\<close> resolves and the session is not busy
  afterwards.\<close>

lemma prompt_busy:
  "\<exists>s'. prompt s k t send = Inr s'
       \<and> busySessionIDs s' =
           (if trim t = [] \<or> k = [] then busySessionIDs s else busySessionIDs s - {k})"
  by (cases "send k (trim t)") (auto simp: prompt_def setBusy_def Let_def)

lemma prompt_ctx_busy:
  "\<exists>st'. prompt_ctx st k t send = Inr st'
       \<and> c_busySessionIDs st' =
           (if trim t = [] then c_busySessionIDs st else c_busySessionIDs st - {k})"
  by (cases "send k t") (simp_all add: prompt_ctx_def Let_def)

text \<open>
  Claim C4, as stated: when the send-prompt request fails, \<^verbatim>\<open>prompt\<close> records a
  human-readable error string and the busy set after the call equals the busy set before
  it. The busy set is a set, and the \<^verbatim>\<open>finally\<close> step deletes the session id whether or
  not this call added it: in a store where \<open>s1\<close> is already busy (an earlier prompt for
  \<open>s1\<close> is still in flight), a prompt for \<open>s1\<close> that fails leaves the busy set empty, in
  the zustand store and in the context store. And the context store has nowhere to record
  the error: its state after the failed prompt is its state before, less the busy flag.
\<close>

theorem C4_busy_counterexample:
  "trim hiText \<noteq> []
   \<and> failingSend ''s1'' (trim hiText) = Failed (ErrorObject ''Failed to fetch'')
   \<and> prompt busyStore ''s1'' hiText failingSend = Inr afterFailedPrompt
   \<and> busySessionIDs afterFailedPrompt \<noteq> busySessionIDs busyStore
   \<and> failingSend ''s1'' hiText = Failed (ErrorObject ''Failed to fetch'')
   \<and> prompt_ctx busyProvider ''s1'' hiText failingSend
       = Inr (busyProvider\<lparr>c_busySessionIDs := {}\<rparr>)
   \<and> c_busySessionIDs (busyProvider\<lparr>c_busySessionIDs := {}\<rparr>) \<noteq> c_busySessionIDs busyProvider"
  unfolding trim_hiText
  by (simp add: prompt_def setBusy_def failingSend_def busyStore_def
       afterFailedPrompt_def initialState_def prompt_ctx_def busyProvider_def
       initialProviderState_def trim_hiText hiText_nonempty Let_def)

text \<open>
  Claim C4, amended: for every session id and non-blank text, if the send-prompt request
  fails then \<^verbatim>\<open>prompt\<close> does not propagate the error to its caller, the zustand store
  records a human-readable error string (the error's message, or \<open>Failed to send prompt\<close>
  for a thrown value that is neither an \<^verbatim>\<open>Error\<close> nor a string) in \<^verbatim>\<open>lastError\<close>, and the
  busy set after the call is the busy set before the call without the session id -- equal
  to the busy set before the call whenever the session was not busy already: the session
  id is removed in a \<^verbatim>\<open>finally\<close> step regardless of success or failure. (The zustand
  store neither adds nor removes an empty session id.) On success the returned message is
  merged into the session's list and no error is recorded.
\<close>

theorem C4_prompt_failure:
  "(\<exists>s'. prompt s k t send = Inr s'
       \<and> busySessionIDs s' =
           (if trim t = [] \<or> k = [] then busySessionIDs s else busySessionIDs s - {k}))
   \<and> (\<exists>st'. prompt_ctx st k t send = Inr st'
       \<and> c_busySessionIDs st' =
           (if trim t = [] then c_busySessionIDs st else c_busySessionIDs st - {k}))
   \<and> (trim t \<noteq> [] \<and> send k (trim t) = Failed e \<longrightarrow>
      (\<exists>s'. prompt s k t send = Inr s'
         \<and> lastError s' =
             Some (case e of ErrorObject m \<Rightarrow> m | ThrownString x \<Rightarrow> x
                   | ThrownOther x \<Rightarrow> ''Failed to send prompt'')
         \<and> busySessionIDs s' = (if k = [] then busySessionIDs s else busySessionIDs s - {k})
         \<and> (k \<notin> busySessionIDs s \<longrightarrow> busySessionIDs s' = busySessionIDs s)
         \<and> sessions s' = sessions s \<and> messages s' = messages s
         \<and> activeSessionID s' = activeSessionID s \<and> activeMessages s' = activeMessages s))
   \<and> (trim t \<noteq> [] \<and> send k t = Failed e \<longrightarrow>
      (\<exists>st'. prompt_ctx st k t send = Inr st'
         \<and> c_busySessionIDs st' = c_busySessionIDs st - {k}
         \<and> (k \<notin> c_busySessionIDs st \<longrightarrow> c_busySessionIDs st' = c_busySessionIDs st)
         \<and> c_sessions st' = c_sessions st \<and> c_messages st' = c_messages st
         \<and> c_activeSessionID st' = c_activeSessionID st))
   \<and> (trim t \<noteq> [] \<and> send k (trim t) = Ok r \<longrightarrow>
      (\<exists>s'. prompt s k t send = Inr s'
         \<and> lastError s' = lastError s
         \<and> busySessionIDs s' = (if k = [] then busySessionIDs s else busySessionIDs s - {k})
         \<and> (k \<notin> busySessionIDs s \<longrightarrow> busySessionIDs s' = busySessionIDs s)
         \<and> messages s' k = Some (mergeMessageList (orEmpty (messages s) k) r)))
   \<and> (trim t \<noteq> [] \<and> send k t = Ok r \<longrightarrow>
      (\<exists>st'. prompt_ctx st k t send = Inr st'
         \<and> c_busySessionIDs st' = c_busySessionIDs st - {k}
         \<and> (k \<notin> c_busySessionIDs st \<longrightarrow> c_busySessionIDs st' = c_busySessionIDs st)
         \<and> c_messages st' k = Some (mergeMessage_ctx (orEmpty (c_messages st) k) r)))"
proof (intro conjI impI)
  show "\<exists>s'. prompt s k t send = Inr s'
       \<and> busySessionIDs s' =
           (if trim t = [] \<or> k = [] then busySessionIDs s else busySessionIDs s - {k})"
    by (rule prompt_busy)
  show "\<exists>st'. prompt_ctx st k t send = Inr st'
       \<and> c_busySessionIDs st' =
           (if trim t = [] then c_busySessionIDs st else c_busySessionIDs st - {k})"
    by (rule prompt_ctx_busy)
next
  assume "trim t \<noteq> [] \<and> send k (trim t) = Failed e"
  then have "prompt s k t send =
           Inr (s\<lparr>busySessionIDs := (if k = [] then busySessionIDs s else busySessionIDs s - {k}),
                  lastError := Some (promptErrorText e)\<rparr>)"
    by (intro prompt_failed) simp_all
  then show "\<exists>s'. prompt s k t send = Inr s'
         \<and> lastError s' =
             Some (case e of ErrorObject m \<Rightarrow> m | ThrownString x \<Rightarrow> x
                   | ThrownOther x \<Rightarrow> ''Failed to send prompt'')
         \<and> busySessionIDs s' = (if k = [] then busySessionIDs s else busySessionIDs s - {k})
         \<and> (k \<notin> busySessionIDs s \<longrightarrow> busySessionIDs s' = busySessionIDs s)
         \<and> sessions s' = sessions s \<and> messages s' = messages s
         \<and> activeSessionID s' = activeSessionID s \<and> activeMessages s' = activeMessages s"
    by (cases e) simp_all
next
  assume "trim t \<noteq> [] \<and> send k t = Failed e"
  then have "prompt_ctx st k t send = Inr (st\<lparr>c_busySessionIDs := c_busySessionIDs st - {k}\<rparr>)"
    by (intro prompt_ctx_failed) simp_all
  then show "\<exists>st'. prompt_ctx st k t send = Inr st'
         \<and> c_busySessionIDs st' = c_busySessionIDs st - {k}
         \<and> (k \<notin> c_busySessionIDs st \<longrightarrow> c_busySessionIDs st' = c_busySessionIDs st)
         \<and> c_sessions st' = c_sessions st \<and> c_messages st' = c_messages st
         \<and> c_activeSessionID st' = c_activeSessionID st"
    by simp
next
  assume "trim t \<noteq> [] \<and> send k (trim t) = Ok r"
  then have "prompt s k t send =
           Inr (s\<lparr>busySessionIDs := (if k = [] then busySessionIDs s else busySessionIDs s - {k}),
                  messages := (messages s)(k \<mapsto> mergeMessageList (orEmpty (messages s) k) r),
                  activeMessages :=
                    (if activeSessionID s = Some k
                     then mergeMessageList (orEmpty (messages s) k) r else activeMessages s)\<rparr>)"
    by (intro prompt_answered) simp_all
  then show "\<exists>s'. prompt s k t send = Inr s'
         \<and> lastError s' = lastError s
         \<and> busySessionIDs s' = (if k = [] then busySessionIDs s else busySessionIDs s - {k})
         \<and> (k \<notin> busySessionIDs s \<longrightarrow> busySessionIDs s' = busySessionIDs s)
         \<and> messages s' k = Some (mergeMessageList (orEmpty (messages s) k) r)"
    by simp
next
  assume "trim t \<noteq> [] \<and> send k t = Ok r"
  then have "prompt_ctx st k t send =
           Inr (st\<lparr>c_busySessionIDs := c_busySessionIDs st - {k},
                   c_messages := (c_messages st)
                     (k \<mapsto> mergeMessage_ctx (orEmpty (c_messages st) k) r)\<rparr>)"
    by (intro prompt_ctx_answered) simp_all
  then show "\<exists>st'. prompt_ctx st k t send = Inr st'
         \<and> c_busySessionIDs st' = c_busySessionIDs st - {k}
         \<and> (k \<notin> c_busySessionIDs st \<longrightarrow> c_busySessionIDs st' = c_busySessionIDs st)
         \<and> c_messages st' k = Some (mergeMessage_ctx (orEmpty (c_messages st) k) r)"
    by simp
qed

theorem C4_prompt_failure_witness:
  "trim hiText \<noteq> []
   \<and> failingSend ''s1'' (trim hiText) = Failed (ErrorObject ''Failed to fetch'')
   \<and> ''s1'' \<notin> busySessionIDs (initialState localConfig)
   \<and> prompt (initialState localConfig) ''s1'' hiText failingSend
       = Inr ((initialState localConfig)\<lparr>lastError := Some ''Failed to fetch''\<rparr>)
   \<and> busySessionIDs ((initialState localConfig)\<lparr>lastError := Some ''Failed to fetch''\<rparr>)
       = busySessionIDs (initialState localConfig)
   \<and> answeringSend ''s1'' (trim hiText) = Ok msg2
   \<and> prompt (initialState localConfig) ''s1'' hiText answeringSend
       = Inr ((initialState localConfig)\<lparr>messages := [''s1'' \<mapsto> [msg2]]\<rparr>)
   \<and> busySessionIDs ((initialState localConfig)\<lparr>messages := [''s1'' \<mapsto> [msg2]]\<rparr>)
       = busySessionIDs (initialState localConfig)"
proof -
  let ?s = "initialState localConfig"
  have t: "trim hiText \<noteq> []" by (simp add: trim_hiText hiText_nonempty)
  have f: "failingSend ''s1'' (trim hiText) = Failed (ErrorObject ''Failed to fetch'')"
    by (simp add: failingSend_def)
  have a: "answeringSend ''s1'' (trim hiText) = Ok msg2"
    by (simp add: answeringSend_def)
  have n: "''s1'' \<notin> busySessionIDs ?s"
    by (simp add: initialState_def)
  have e: "prompt ?s ''s1'' hiText failingSend = Inr (?s\<lparr>lastError := Some ''Failed to fetch''\<rparr>)"
    by (simp add: trim_hiText prompt_def setBusy_def failingSend_def initialState_def
        hiText_nonempty Let_def)
  have e': "prompt ?s ''s1'' hiText answeringSend = Inr (?s\<lparr>messages := [''s1'' \<mapsto> [msg2]]\<rparr>)"
    by (simp add: trim_hiText prompt_def setBusy_def answeringSend_def initialState_def
        hiText_nonempty mergeMessageList_def sortByCreated_def orEmpty_def Let_def)
  note failed = C4_prompt_failure
    [of ?s "''s1''" hiText failingSend initialProviderState "ErrorObject ''Failed to fetch''" msg2,
     THEN conjunct2, THEN conjunct2, THEN conjunct1, THEN mp, OF conjI, OF t f]
  then obtain s' where s':
    "prompt ?s ''s1'' hiText failingSend = Inr s'
     \<and> lastError s' =
           Some (case ErrorObject ''Failed to fetch'' of ErrorObject m \<Rightarrow> m | ThrownString x \<Rightarrow> x
                 | ThrownOther x \<Rightarrow> ''Failed to send prompt'')
     \<and> busySessionIDs s' = (if ''s1'' = [] then busySessionIDs ?s else busySessionIDs ?s - {''s1''})
     \<and> (''s1'' \<notin> busySessionIDs ?s \<longrightarrow> busySessionIDs s' = busySessionIDs ?s)
     \<and> sessions s' = sessions ?s \<and> messages s' = messages ?s
     \<and> activeSessionID s' = activeSessionID ?s \<and> activeMessages s' = activeMessages ?s" ..
  note b = s' [THEN conjunct2, THEN conjunct2, THEN conjunct2, THEN conjunct1, THEN mp, OF n]
  from s' [THEN conjunct1] e have "s' = ?s\<lparr>lastError := Some ''Failed to fetch''\<rparr>" by simp
  with b have one: "busySessionIDs (?s\<lparr>lastError := Some ''Failed to fetch''\<rparr>) = busySessionIDs ?s"
    by simp
  note answered = C4_prompt_failure
    [of ?s "''s1''" hiText answeringSend initialProviderState "ErrorObject ''Failed to fetch''" msg2,
     THEN conjunct2, THEN conjunct2, THEN conjunct2, THEN conjunct2, THEN conjunct1, THEN mp,
     OF conjI, OF t a]
  then obtain s'' where s'':
    "prompt ?s ''s1'' hiText answeringSend = Inr s''
     \<and> lastError s'' = lastError ?s
     \<and> busySessionIDs s'' = (if ''s1'' = [] then busySessionIDs ?s else busySessionIDs ?s - {''s1''})
     \<and> (''s1'' \<notin> busySessionIDs ?s \<longrightarrow> busySessionIDs s'' = busySessionIDs ?s)
     \<and> messages s'' ''s1'' = Some (mergeMessageList (orEmpty (messages ?s) ''s1'') msg2)" ..
  note b' = s'' [THEN conjunct2, THEN conjunct2, THEN conjunct2, THEN conjunct1, THEN mp, OF n]
  from s'' [THEN conjunct1] e' have "s'' = ?s\<lparr>messages := [''s1'' \<mapsto> [msg2]]\<rparr>" by simp
  with b' have two: "busySessionIDs (?s\<lparr>messages := [''s1'' \<mapsto> [msg2]]\<rparr>) = busySessionIDs ?s"
    by simp
  from t f n e one a e' two show ?thesis by (intro conjI)
qed

section \<open>The session.deleted event\<close>

text \<open>In the zustand store the event removes every session entry of that id, the cached
  messages of the session and its busy flag; a busy set within the known session ids
  stays within them.\<close>

lemma removeSessionState_effect:
  "sessions (removeSessionState s k) = filter (\<lambda>item. s_id item \<noteq> k) (sessions s)
   \<and> k \<notin> s_id ` set (sessions (removeSessionState s k))
   \<and> messages (removeSessionState s k) = (messages s)(k := None)
   \<and> busySessionIDs (removeSessionState s k) = busySessionIDs s - {k}
   \<and> (busySessionIDs s \<subseteq> s_id ` set (sessions s)
        \<longrightarrow> busySessionIDs (removeSessionState s k)
              \<subseteq> s_id ` set (sessions (removeSessionState s k)))"
  by (auto simp: removeSessionState_def removeSession_def Let_def)

lemma deleted_event_in_provider:
  "c_busySessionIDs (handleEvent st f (SessionDeleted i)) = c_busySessionIDs st"
  by simp

text \<open>
  Claim C7: folding a session.deleted event removes the session from the session list,
  deletes its cached messages and removes its id from the busy set, so the busy set stays
  within the known session ids. \<^verbatim>\<open>removeSessionState\<close> of the zustand store does all three
  (\<open>removeSessionState_effect\<close>); the session.deleted branch of \<^verbatim>\<open>handleEvent\<close> in the
  context store updates sessions, messages and the active session and never touches the
  busy set. With session \<open>s1\<close> known and busy, the event for \<open>s1\<close> leaves the context
  store with no session and with \<open>s1\<close> still busy.
\<close>

theorem C7_deleted_session_stays_busy:
  "c_busySessionIDs busyProvider \<subseteq> s_id ` set (c_sessions busyProvider)
   \<and> c_sessions (handleEvent busyProvider fetched (SessionDeleted sess1)) = []
   \<and> c_messages (handleEvent busyProvider fetched (SessionDeleted sess1)) ''s1'' = None
   \<and> c_busySessionIDs (handleEvent busyProvider fetched (SessionDeleted sess1)) = {''s1''}
   \<and> busySessionIDs (removeSessionState busyStore ''s1'') = {}"
  by (simp add: busyProvider_def initialProviderState_def removeSession_def sess1_def
      removeSessionState_def busyStore_def initialState_def Let_def)

section \<open>Refreshing the session list\<close>

text \<open>In the zustand store a successful refresh stores the fetched sessions sorted
  descending by update time, keeps the active session when its (non-empty) id is among
  them and otherwise activates the first of the sorted list, or none when the list is
  empty; a failed refresh records the error and changes nothing else; both clear the
  loading flag.\<close>

lemma refreshSessions_ok:
  "refreshSessions s (Ok fetched) = Inr s' \<Longrightarrow>
     sessions s' = sortByUpdatedDesc fetched
   \<and> sorted (map (\<lambda>a. - s_updated a) (sessions s'))
   \<and> mset (sessions s') = mset fetched
   \<and> isLoadingSessions s' = False
   \<and> (\<forall>a. activeSessionID s = Some a \<and> a \<noteq> [] \<and> a \<in> s_id ` set fetched
          \<longrightarrow> activeSessionID s' = Some a)
   \<and> (\<forall>a. activeSessionID s = Some a \<and> a \<notin> s_id ` set fetched
          \<longrightarrow> activeSessionID s' = firstId (sortByUpdatedDesc fetched))
   \<and> (activeSessionID s = None \<longrightarrow> activeSessionID s' = firstId (sortByUpdatedDesc fetched))"
  by (auto simp: refreshSessions_def Let_def sortByUpdatedDesc_def truthy_def list_ex_iff)

lemma refreshSessions_failed:
  "refreshSessions s (Failed e) =
     Inr (s\<lparr>isLoadingSessions := False, lastError := Some (errorText e)\<rparr>)"
  by (simp add: refreshSessions_def)

lemma refreshSessions_ctx_keeps_active:
  "c_activeSessionID st = Some a \<Longrightarrow> a \<noteq> [] \<Longrightarrow> refreshSessions_ctx st r = Inr st'
     \<Longrightarrow> c_activeSessionID st' = Some a"
  by (cases r) (auto simp: refreshSessions_ctx_def Let_def truthy_def)

text \<open>
  Claim C8: \<^verbatim>\<open>refreshSessions\<close> stores the fetched list sorted descending by update time,
  keeps the active session when it is still in the list and otherwise makes the newest
  session active, records the error of a failed fetch while leaving sessions and active
  session untouched, and clears the loading flag either way. The zustand store does so
  (\<open>refreshSessions_ok\<close>, \<open>refreshSessions_failed\<close>); \<^verbatim>\<open>refreshSessions\<close> of the context
  store picks a session only while none is active
  (\<^verbatim>\<open>if (!activeSessionID && sorted.length > 0)\<close>), so an active id that is gone from the
  server stays active. With \<open>s9\<close> active and the server returning only \<open>s1\<close>, the context
  store ends with the sessions \<open>[sess1]\<close> and the active id \<open>s9\<close>, where the zustand store
  moves to \<open>s1\<close>.
\<close>

theorem C8_stale_active_session_kept:
  "refreshSessions_ctx staleProvider (Ok [sess1]) = Inr (staleProvider\<lparr>c_sessions := [sess1]\<rparr>)
   \<and> c_activeSessionID (staleProvider\<lparr>c_sessions := [sess1]\<rparr>) = Some ''s9''
   \<and> ''s9'' \<notin> s_id ` set [sess1]
   \<and> activeSessionID staleStore = Some ''s9''
   \<and> activeSessionID (outcomeState staleStore (refreshSessions staleStore (Ok [sess1])))
       = Some ''s1''"
  by (simp add: refreshSessions_ctx_def staleProvider_def initialProviderState_def
      sortByUpdatedDesc_def truthy_def sess1_def refreshSessions_def initialState_def
      outcomeState_def firstId_def staleStore_def Let_def)

section \<open>Closing a tab\<close>

lemma findIndex_filtered: "findIndex (\<lambda>f. f = p) (filter (\<lambda>x. x \<noteq> p) xs) = -1"
  by (induction xs) (simp_all add: Let_def)

text \<open>What \<^verbatim>\<open>close\<close> does in general: the path leaves the tab list, its node is dropped,
  and when it was the active tab the first remaining tab becomes active (none when no tab
  remains), since the path is looked up in the list it has just been filtered out of.\<close>

lemma close_effect:
  "opened (close s p) = filter (\<lambda>x. x \<noteq> p) (opened s)
   \<and> node (close s p) = (node s)(p := None)
   \<and> active (close s p) =
       (if active s = Some p then at_index (filter (\<lambda>x. x \<noteq> p) (opened s)) 0 else active s)"
  by (simp add: close_def resetNode_def Let_def findIndex_filtered)

text \<open>
  Claim C9: \<^verbatim>\<open>close(path)\<close> removes the path from the open tabs, activates the tab
  immediately to the left of an active tab that is closed (index 0 when there is none),
  and discards the node's cached content and view state. The code computes
  \<^verbatim>\<open>store.opened[Math.max(0, index - 1)]\<close>, the left neighbour, but reads \<^verbatim>\<open>index\<close> from
  \<^verbatim>\<open>store.opened\<close> after the path has been filtered out of it, so \<^verbatim>\<open>index\<close> is always
  \<open>-1\<close>. With the tabs \<open>a\<close>, \<open>b\<close>, \<open>c\<close> open and \<open>c\<close> active, closing \<open>c\<close> activates \<open>a\<close>, not
  its left neighbour \<open>b\<close>; the tab list and the node are as the claim says.
\<close>

theorem C9_close_activates_first_tab:
  "opened (close threeTabs ''c'') = [''a'', ''b'']
   \<and> active (close threeTabs ''c'') = Some ''a''
   \<and> node (close threeTabs ''c'') ''c'' = None"
  by (simp add: close_def resetNode_def threeTabs_def at_index_def Let_def)

section \<open>Reading the persisted configuration\<close>

text \<open>
  Claim C10: \<^verbatim>\<open>readConfig\<close> never throws, whatever the persisted slot holds, and always
  returns a configuration. When a window exists, the slot holds a non-empty text and that
  text parses to an object, the base URL is the object's \<^verbatim>\<open>baseUrl\<close> member when that is a
  string and the default base URL \<open>d\<close> when it is anything else or missing, and the
  directory is the object's \<^verbatim>\<open>directory\<close> member when that is a string and undefined
  otherwise. In every other case (no window, a storage error, an absent or empty slot,
  text that is not JSON, a parsed value that is not an object) the base URL is the default
  base URL \<open>d\<close> and the directory is undefined.
\<close>

lemma stringMember_array:
  "\<not> notAnObject v \<Longrightarrow> \<forall>ms. v \<noteq> JObject ms \<Longrightarrow> stringMember v key = None"
  by (cases v) simp_all

lemma stringMember_string:
  "map_of ms key = Some (JString b) \<Longrightarrow> stringMember (JObject ms) key = Some b"
  by simp

lemma stringMember_other:
  assumes "\<forall>b. map_of ms key \<noteq> Some (JString b)"
  shows "stringMember (JObject ms) key = None"
proof (cases "map_of ms key")
  case None
  then show ?thesis by simp
next
  case (Some v)
  with assms show ?thesis by (cases v) simp_all
qed

lemma readConfig_object:
  assumes "w" and "g = Inr (Some raw)" and "raw \<noteq> []" and "p raw = Inr (JObject ms)"
  shows "readConfig d w g p =
          Inr \<lparr>baseUrl = (case stringMember (JObject ms) ''baseUrl'' of Some b \<Rightarrow> b | None \<Rightarrow> d),
               directory = stringMember (JObject ms) ''directory''\<rparr>"
  using assms by (simp add: readConfig_def readConfig_try_def)

lemma readConfig_fallback:
  assumes "\<forall>raw ms. \<not> (w \<and> g = Inr (Some raw) \<and> raw \<noteq> [] \<and> p raw = Inr (JObject ms))"
  shows "readConfig d w g p = Inr \<lparr>baseUrl = d, directory = None\<rparr>"
proof (cases w)
  case False
  then show ?thesis by (simp add: readConfig_def defaultConfig_def)
next
  case True
  show ?thesis
  proof (cases g)
    case (Inl e)
    with True show ?thesis by (simp add: readConfig_def readConfig_try_def defaultConfig_def)
  next
    case (Inr stored)
    show ?thesis
    proof (cases stored)
      case None
      with True Inr show ?thesis
        by (simp add: readConfig_def readConfig_try_def defaultConfig_def)
    next
      case (Some raw)
      show ?thesis
      proof (cases "raw = []")
        case True
        with \<open>w\<close> Inr Some show ?thesis
          by (simp add: readConfig_def readConfig_try_def defaultConfig_def)
      next
        case False
        show ?thesis
        proof (cases "p raw")
          case (Inl e)
          with \<open>w\<close> \<open>g = Inr stored\<close> Some False show ?thesis
            by (simp add: readConfig_def readConfig_try_def defaultConfig_def)
        next
          case (Inr v)
          from assms \<open>w\<close> \<open>g = Inr stored\<close> Some False Inr
          have n: "\<forall>ms. v \<noteq> JObject ms" by simp
          show ?thesis
          proof (cases "notAnObject v")
            case True
            with \<open>w\<close> \<open>g = Inr stored\<close> Some False Inr show ?thesis
              by (simp add: readConfig_def readConfig_try_def defaultConfig_def)
          next
            case nobj: False
            then have "stringMember v ''baseUrl'' = None" "stringMember v ''directory'' = None"
              using n by (simp_all add: stringMember_array)
            with \<open>w\<close> \<open>g = Inr stored\<close> Some False Inr nobj show ?thesis
              by (simp add: readConfig_def readConfig_try_def)
          qed
        qed
      qed
    qed
  qed
qed

theorem C10_readConfig_total:
  "\<exists>c. readConfig d w g p = Inr c
      \<and> (\<forall>raw ms. w \<and> g = Inr (Some raw) \<and> raw \<noteq> [] \<and> p raw = Inr (JObject ms)
            \<longrightarrow> (\<forall>b. map_of ms ''baseUrl'' = Some (JString b) \<longrightarrow> baseUrl c = b)
              \<and> ((\<forall>b. map_of ms ''baseUrl'' \<noteq> Some (JString b)) \<longrightarrow> baseUrl c = d)
              \<and> (\<forall>x. map_of ms ''directory'' = Some (JString x) \<longrightarrow> directory c = Some x)
              \<and> ((\<forall>x. map_of ms ''directory'' \<noteq> Some (JString x)) \<longrightarrow> directory c = None))
      \<and> ((\<forall>raw ms. \<not> (w \<and> g = Inr (Some raw) \<and> raw \<noteq> [] \<and> p raw = Inr (JObject ms)))
            \<longrightarrow> baseUrl c = d \<and> directory c = None)"
proof (cases "\<exists>raw ms. w \<and> g = Inr (Some raw) \<and> raw \<noteq> [] \<and> p raw = Inr (JObject ms)")
  case True
  then obtain raw ms where h: "w" "g = Inr (Some raw)" "raw \<noteq> []" "p raw = Inr (JObject ms)"
    by blast
  let ?c = "\<lparr>baseUrl = (case stringMember (JObject ms) ''baseUrl'' of Some b \<Rightarrow> b | None \<Rightarrow> d),
             directory = stringMember (JObject ms) ''directory''\<rparr>"
  have r: "readConfig d w g p = Inr ?c" using h by (rule readConfig_object)
  have same: "raw' = raw \<and> ms' = ms"
    if "w \<and> g = Inr (Some raw') \<and> raw' \<noteq> [] \<and> p raw' = Inr (JObject ms')" for raw' ms'
    using that h by simp
  have b1: "baseUrl ?c = b" if "map_of ms ''baseUrl'' = Some (JString b)" for b
    using that by simp
  have b2: "baseUrl ?c = d" if "\<forall>b. map_of ms ''baseUrl'' \<noteq> Some (JString b)"
    using stringMember_other [OF that] by simp
  have d1: "directory ?c = Some x" if "map_of ms ''directory'' = Some (JString x)" for x
    using that by simp
  have d2: "directory ?c = None" if "\<forall>x. map_of ms ''directory'' \<noteq> Some (JString x)"
    using stringMember_other [OF that] by simp
  have obj: "(\<forall>b. map_of ms' ''baseUrl'' = Some (JString b) \<longrightarrow> baseUrl ?c = b)
      \<and> ((\<forall>b. map_of ms' ''baseUrl'' \<noteq> Some (JString b)) \<longrightarrow> baseUrl ?c = d)
      \<and> (\<forall>x. map_of ms' ''directory'' = Some (JString x) \<longrightarrow> directory ?c = Some x)
      \<and> ((\<forall>x. map_of ms' ''directory'' \<noteq> Some (JString x)) \<longrightarrow> directory ?c = None)"
    if "w \<and> g = Inr (Some raw') \<and> raw' \<noteq> [] \<and> p raw' = Inr (JObject ms')" for raw' ms'
  proof -
    from same [OF that] have "ms' = ms" by simp
    then show ?thesis using b1 b2 d1 d2 by blast
  qed
  have fb: "(\<forall>raw ms. \<not> (w \<and> g = Inr (Some raw) \<and> raw \<noteq> [] \<and> p raw = Inr (JObject ms)))
            \<longrightarrow> baseUrl ?c = d \<and> directory ?c = None"
    using True by blast
  from r obj fb show ?thesis by blast
next
  case False
  then have "readConfig d w g p = Inr \<lparr>baseUrl = d, directory = None\<rparr>"
    by (intro readConfig_fallback) blast
  with False show ?thesis by auto
qed

theorem C10_readConfig_total_witness:
  "readConfig ''http://127.0.0.1:4096'' True (Inr (Some ''stored'')) (\<lambda>t. Inr storedJson)
     = Inr \<lparr>baseUrl = ''http://10.0.0.2:4096'', directory = None\<rparr>
   \<and> readConfig ''http://127.0.0.1:4096'' True (Inr (Some ''stored''))
       (\<lambda>t. Inl (ErrorObject ''Unexpected token''))
     = Inr \<lparr>baseUrl = ''http://127.0.0.1:4096'', directory = None\<rparr>"
proof -
  let ?d = "''http://127.0.0.1:4096''"
  let ?g = "Inr (Some ''stored'') :: thrown + string option"
  let ?p = "\<lambda>t::string. Inr storedJson :: thrown + json"
  let ?q = "\<lambda>t::string. Inl (ErrorObject ''Unexpected token'') :: thrown + json"
  let ?ms = "[(''baseUrl'', JString ''http://10.0.0.2:4096''), (''directory'', JNumber 3)]"
  from C10_readConfig_total [of ?d True ?g ?p] obtain c where
    all: "readConfig ?d True ?g ?p = Inr c
      \<and> (\<forall>raw ms. True \<and> ?g = Inr (Some raw) \<and> raw \<noteq> [] \<and> ?p raw = Inr (JObject ms)
            \<longrightarrow> (\<forall>b. map_of ms ''baseUrl'' = Some (JString b) \<longrightarrow> baseUrl c = b)
              \<and> ((\<forall>b. map_of ms ''baseUrl'' \<noteq> Some (JString b)) \<longrightarrow> baseUrl c = ?d)
              \<and> (\<forall>x. map_of ms ''directory'' = Some (JString x) \<longrightarrow> directory c = Some x)
              \<and> ((\<forall>x. map_of ms ''directory'' \<noteq> Some (JString x)) \<longrightarrow> directory c = None))
      \<and> ((\<forall>raw ms. \<not> (True \<and> ?g = Inr (Some raw) \<and> raw \<noteq> [] \<and> ?p raw = Inr (JObject ms)))
            \<longrightarrow> baseUrl c = ?d \<and> directory c = None)" ..
  note c = all [THEN conjunct1]
  have hyp: "True \<and> ?g = Inr (Some ''stored'') \<and> ''stored'' \<noteq> [] \<and> ?p ''stored'' = Inr (JObject ?ms)"
    by (simp add: storedJson_def)
  note members = all [THEN conjunct2, THEN conjunct1, THEN spec [where x = "''stored''"],
      THEN spec [where x = ?ms], THEN mp, OF hyp]
  have m1: "map_of ?ms ''baseUrl'' = Some (JString ''http://10.0.0.2:4096'')" by simp
  have m2: "\<forall>x. map_of ?ms ''directory'' \<noteq> Some (JString x)" by simp
  have b: "baseUrl c = ''http://10.0.0.2:4096''"
    by (rule members [THEN conjunct1, THEN spec [where x = "''http://10.0.0.2:4096''"], THEN mp, OF m1])
  have dir: "directory c = None"
    by (rule members [THEN conjunct2, THEN conjunct2, THEN conjunct2, THEN mp, OF m2])
  from b dir have "c = \<lparr>baseUrl = ''http://10.0.0.2:4096'', directory = None\<rparr>"
    by (cases c) simp
  with c have one: "readConfig ?d True ?g ?p
      = Inr \<lparr>baseUrl = ''http://10.0.0.2:4096'', directory = None\<rparr>"
    by simp
  from C10_readConfig_total [of ?d True ?g ?q] obtain c' where
    all': "readConfig ?d True ?g ?q = Inr c'
      \<and> (\<forall>raw ms. True \<and> ?g = Inr (Some raw) \<and> raw \<noteq> [] \<and> ?q raw = Inr (JObject ms)
            \<longrightarrow> (\<forall>b. map_of ms ''baseUrl'' = Some (JString b) \<longrightarrow> baseUrl c' = b)
              \<and> ((\<forall>b. map_of ms ''baseUrl'' \<noteq> Some (JString b)) \<longrightarrow> baseUrl c' = ?d)
              \<and> (\<forall>x. map_of ms ''directory'' = Some (JString x) \<longrightarrow> directory c' = Some x)
              \<and> ((\<forall>x. map_of ms ''directory'' \<noteq> Some (JString x)) \<longrightarrow> directory c' = None))
      \<and> ((\<forall>raw ms. \<not> (True \<and> ?g = Inr (Some raw) \<and> raw \<noteq> [] \<and> ?q raw = Inr (JObject ms)))
            \<longrightarrow> baseUrl c' = ?d \<and> directory c' = None)" ..
  have none: "\<forall>raw ms. \<not> (True \<and> ?g = Inr (Some raw) \<and> raw \<noteq> [] \<and> ?q raw = Inr (JObject ms))"
    by simp
  note fb = all' [THEN conjunct2, THEN conjunct2, THEN mp, OF none]
  from fb have "c' = \<lparr>baseUrl = ?d, directory = None\<rparr>" by (cases c') simp
  with all' [THEN conjunct1] have two: "readConfig ?d True ?g ?q = Inr \<lparr>baseUrl = ?d, directory = None\<rparr>"
    by simp
  from one two show ?thesis by (rule conjI)
qed

end
